theory Spec2Isabelle
  imports Complex_Main "HOL-Library.Sublist" "HOL-Library.Product_Lexorder"
begin

section \<open>JavaScript values\<close>

text \<open>
  The handlers of \<^verbatim>\<open>src/sync.ts\<close> (its second part, the MCP server) receive arguments
  that a zod schema has validated (the schemas admit no NaN and bound every number);
  an optional argument is an
  \<^typ>\<open>'a option\<close>, \<^term>\<open>None\<close> standing for \<^verbatim>\<open>undefined\<close>. A thrown value is a
  \<open>js_error\<close>; a function that may throw returns \<open>js_error + 'a\<close>.
\<close>

datatype js_error = JsError string

subsection \<open>Numbers\<close>

text \<open>
  A JavaScript number is an IEEE 754 binary64 value. It is modelled as the real it
  denotes; the result of an arithmetic operation is the exact result rounded to the
  nearest binary64 value, ties to the even significand (\<open>fl\<close>). The numbers of the
  handlers (scores, importances, small counts) are far from overflow and from the
  subnormal range, so the exponent of \<open>fl\<close> is not bounded. \<open>pow2 e\<close> is \<open>2\<^sup>e\<close>,
  \<open>ulp_exp x\<close> the exponent of the last of the 53 bits of \<open>x\<close>.
\<close>

definition pow2 :: "int \<Rightarrow> real" where
  "pow2 e = (if 0 \<le> e then 2 ^ nat e else inverse (2 ^ nat (- e)))"

definition round_even :: "real \<Rightarrow> int" where
  "round_even x =
     (if x - of_int \<lfloor>x\<rfloor> < 1 / 2 then \<lfloor>x\<rfloor>
      else if 1 / 2 < x - of_int \<lfloor>x\<rfloor> then \<lfloor>x\<rfloor> + 1
      else if even \<lfloor>x\<rfloor> then \<lfloor>x\<rfloor> else \<lfloor>x\<rfloor> + 1)"

definition ulp_exp :: "real \<Rightarrow> int" where
  "ulp_exp x = \<lfloor>log 2 \<bar>x\<bar>\<rfloor> - 52"

definition fl :: "real \<Rightarrow> real" where
  "fl x =
     (if x = 0 then 0
      else sgn x * of_int (round_even (\<bar>x\<bar> / pow2 (ulp_exp x))) * pow2 (ulp_exp x))"

text \<open>A real that is a binary64 value; \<^verbatim>\<open>a * b\<close> and \<^verbatim>\<open>a / b\<close> on numbers.\<close>

definition is_double :: "real \<Rightarrow> bool" where
  "is_double x = (fl x = x)"

definition js_mul :: "real \<Rightarrow> real \<Rightarrow> real" where
  "js_mul a b = fl (a * b)"

definition js_div :: "real \<Rightarrow> real \<Rightarrow> real" where
  "js_div a b = fl (a / b)"

text \<open>\<^verbatim>\<open>x || d\<close> on an optional number: \<^verbatim>\<open>undefined\<close> and \<^verbatim>\<open>0\<close> are falsy.\<close>

definition or_num :: "real option \<Rightarrow> real \<Rightarrow> real" where
  "or_num x d = (case x of None \<Rightarrow> d | Some v \<Rightarrow> if v = 0 then d else v)"

definition or_nat :: "nat option \<Rightarrow> nat \<Rightarrow> nat" where
  "or_nat x d = (case x of None \<Rightarrow> d | Some v \<Rightarrow> if v = 0 then d else v)"

text \<open>\<^verbatim>\<open>xs || []\<close> on an optional array: every array is truthy.\<close>

definition or_list :: "'a list option \<Rightarrow> 'a list" where
  "or_list x = (case x of None \<Rightarrow> [] | Some xs \<Rightarrow> xs)"

text \<open>\<^verbatim>\<open>Math.floor\<close> and \<^verbatim>\<open>Math.round\<close> (half-way cases go up); both are exact.\<close>

definition math_floor :: "real \<Rightarrow> real" where
  "math_floor x = of_int \<lfloor>x\<rfloor>"

definition math_round :: "real \<Rightarrow> real" where
  "math_round x = of_int \<lfloor>x + 1 / 2\<rfloor>"

text \<open>\<^verbatim>\<open>xs.slice(a, b)\<close> for array indices \<open>0 \<le> a\<close>, \<open>0 \<le> b\<close>.\<close>

definition slice :: "nat \<Rightarrow> nat \<Rightarrow> 'a list \<Rightarrow> 'a list" where
  "slice a b xs = take (b - a) (drop a xs)"

text \<open>The result a tool handler returns: its JSON payload and the \<^verbatim>\<open>isError\<close> flag.\<close>

record 'a tool_result =
  payload :: 'a
  isError :: bool

section \<open>The \<^verbatim>\<open>save_memory\<close> tool\<close>

record save_memory_args =
  save_content :: string
  save_tags :: "string list option"
  save_importance :: "real option"
  save_context :: "string option"
  save_sessionId :: "string option"

text \<open>The input schema of \<^verbatim>\<open>importance\<close>: \<^verbatim>\<open>z.number().min(0).max(10).optional()\<close>.\<close>

definition importance_schema :: "real option \<Rightarrow> bool" where
  "importance_schema x =
     (case x of None \<Rightarrow> True | Some v \<Rightarrow> is_double v \<and> 0 \<le> v \<and> v \<le> 10)"

text \<open>
  Lines 138 to 142 of the handler:
  \<^verbatim>\<open>let safeImportance = importance || 5;
  if (safeImportance > 0 && safeImportance < 1)
    safeImportance = Math.max(1, Math.floor(10 * safeImportance));\<close>
\<close>

definition safeImportance :: "real option \<Rightarrow> real" where
  "safeImportance importance =
     (let s = or_num importance 5
      in if 0 < s \<and> s < 1 then max 1 (math_floor (js_mul 10 s)) else s)"

text \<open>The object handed to \<^verbatim>\<open>memoryService.saveMemory\<close>.\<close>

record save_params =
  p_content :: string
  p_tags :: "string list"
  p_importance :: real
  p_source :: string
  p_context :: "string option"
  p_sessionId :: "string option"

definition save_memory_params :: "save_memory_args \<Rightarrow> save_params" where
  "save_memory_params args =
     \<lparr> p_content = save_content args,
       p_tags = or_list (save_tags args),
       p_importance = safeImportance (save_importance args),
       p_source = ''explicit'',
       p_context = save_context args,
       p_sessionId = save_sessionId args \<rparr>"

datatype save_payload =
  SaveOk string string string "string list" real
  | SaveFailed string string

text \<open>
  The handler: \<open>saveMemory\<close> is the memory service's method (its code is not part of
  the sources, so it is a parameter); it returns the new id or throws, and changes the
  store \<open>s\<close>.
\<close>

definition save_memory ::
  "(save_params \<Rightarrow> 's \<Rightarrow> (js_error + string) \<times> 's) \<Rightarrow> save_memory_args \<Rightarrow> 's
     \<Rightarrow> save_payload tool_result \<times> 's" where
  "save_memory saveMemory args s =
     (let params = save_memory_params args
      in case saveMemory params s of
           (Inr new_id, s') \<Rightarrow>
             (\<lparr> payload =
                  SaveOk new_id (''Memory saved successfully with ID: '' @ new_id)
                    (take 100 (save_content args)
                       @ (if length (save_content args) > 100 then ''...'' else ''''))
                    (or_list (save_tags args)) (p_importance params),
                isError = False \<rparr>, s')
         | (Inl (JsError msg), s') \<Rightarrow>
             (\<lparr> payload = SaveFailed ''Failed to save memory to conscious storage'' msg,
                isError = True \<rparr>, s'))"

section \<open>The \<^verbatim>\<open>search_memories\<close> tool\<close>

text \<open>
  A search hit as the handlers and the sync service read it: \<^verbatim>\<open>id\<close>, \<^verbatim>\<open>text\<close>,
  \<^verbatim>\<open>tags\<close>, \<^verbatim>\<open>importance\<close>, \<^verbatim>\<open>score\<close>, \<^verbatim>\<open>context\<close>, \<^verbatim>\<open>source\<close> and
  \<^verbatim>\<open>metadata.timestamp\<close>.
\<close>

record MemoryResult =
  res_id :: string
  res_text :: string
  res_tags :: "string list"
  res_importance :: real
  res_score :: real
  res_context :: "string option"
  res_source :: string
  res_timestamp :: "nat option"

text \<open>
  The arguments of the tool. \<^verbatim>\<open>limit\<close> and \<^verbatim>\<open>page\<close> are read as whole numbers,
  the page sizes and page numbers that a caller asks for.
\<close>

record search_memories_args =
  sa_query :: string
  sa_tags :: "string list option"
  sa_importance_min :: "real option"
  sa_importance_max :: "real option"
  sa_limit :: "nat option"
  sa_page :: "nat option"
  sa_minScore :: "real option"
  sa_sessionId :: "string option"

text \<open>The options object passed to \<^verbatim>\<open>memoryService.searchMemories\<close>.\<close>

record search_options =
  opt_tags :: "string list option"
  opt_importanceMin :: "real option"
  opt_importanceMax :: "real option"
  opt_limit :: nat
  opt_minScore :: real
  opt_sessionId :: "string option"

record reported_memory =
  rm_id :: string
  rm_content :: string
  rm_tags :: "string list"
  rm_importance :: real
  rm_score :: real
  rm_context :: "string option"
  rm_source :: string

record pagination =
  pg_page :: nat
  pg_pageSize :: nat
  pg_totalPages :: nat
  pg_hasNext :: bool
  pg_hasPrevious :: bool

record search_result =
  sr_query :: string
  sr_found :: nat
  sr_totalResults :: nat
  sr_pagination :: pagination
  sr_memories :: "reported_memory list"

datatype search_payload =
  SearchOk search_result
  | SearchFailed string string

text \<open>\<^verbatim>\<open>const pageSize = limit || 10; const currentPage = page || 1;
const offset = (currentPage - 1) * pageSize;\<close>\<close>

definition pageSize :: "search_memories_args \<Rightarrow> nat" where
  "pageSize args = or_nat (sa_limit args) 10"

definition currentPage :: "search_memories_args \<Rightarrow> nat" where
  "currentPage args = or_nat (sa_page args) 1"

definition offset :: "search_memories_args \<Rightarrow> nat" where
  "offset args = (currentPage args - 1) * pageSize args"

definition search_options_of :: "search_memories_args \<Rightarrow> search_options" where
  "search_options_of args =
     \<lparr> opt_tags = sa_tags args,
       opt_importanceMin = sa_importance_min args,
       opt_importanceMax = sa_importance_max args,
       opt_limit = offset args + pageSize args * 2,
       opt_minScore = or_num (sa_minScore args) (fl (15 / 100)),
       opt_sessionId = sa_sessionId args \<rparr>"

text \<open>\<^verbatim>\<open>allResults.slice(offset, offset + pageSize)\<close>\<close>

definition paginatedResults :: "search_memories_args \<Rightarrow> MemoryResult list \<Rightarrow> MemoryResult list" where
  "paginatedResults args allResults = slice (offset args) (offset args + pageSize args) allResults"

text \<open>\<^verbatim>\<open>Math.round(score * 100) / 100\<close>\<close>

definition round2 :: "real \<Rightarrow> real" where
  "round2 score = js_div (math_round (js_mul score 100)) 100"

text \<open>The input schema of \<^verbatim>\<open>minScore\<close>: \<^verbatim>\<open>z.number().min(0).max(1).optional()\<close>.\<close>

definition minScore_schema :: "real option \<Rightarrow> bool" where
  "minScore_schema x =
     (case x of None \<Rightarrow> True | Some v \<Rightarrow> is_double v \<and> 0 \<le> v \<and> v \<le> 1)"

text \<open>One entry of \<^verbatim>\<open>memories\<close>; the score is \<^verbatim>\<open>Math.round(result.score * 100) / 100\<close>.\<close>

definition report_memory :: "MemoryResult \<Rightarrow> reported_memory" where
  "report_memory r =
     \<lparr> rm_id = res_id r,
       rm_content = res_text r,
       rm_tags = res_tags r,
       rm_importance = res_importance r,
       rm_score = round2 (res_score r),
       rm_context = res_context r,
       rm_source = res_source r \<rparr>"

text \<open>
  The handler. \<open>searchMemories\<close> is the memory service's method, a parameter: it
  returns the hits or throws.
\<close>

definition search_memories ::
  "(string \<Rightarrow> search_options \<Rightarrow> js_error + MemoryResult list) \<Rightarrow> search_memories_args
     \<Rightarrow> search_payload tool_result" where
  "search_memories searchMemories args =
     (case searchMemories (sa_query args) (search_options_of args) of
        Inr allResults \<Rightarrow>
          (let totalResults = length allResults;
               totalPages = nat \<lceil>js_div (real totalResults) (real (pageSize args))\<rceil>
           in \<lparr> payload = SearchOk
                  \<lparr> sr_query = sa_query args,
                    sr_found = length (paginatedResults args allResults),
                    sr_totalResults = totalResults,
                    sr_pagination =
                      \<lparr> pg_page = currentPage args,
                        pg_pageSize = pageSize args,
                        pg_totalPages = totalPages,
                        pg_hasNext = (currentPage args < totalPages),
                        pg_hasPrevious = (currentPage args > 1) \<rparr>,
                    sr_memories = map report_memory (paginatedResults args allResults) \<rparr>,
                isError = False \<rparr>)
      | Inl (JsError msg) \<Rightarrow>
          \<lparr> payload = SearchFailed ''Failed to search conscious memories'' msg,
            isError = True \<rparr>)"

text \<open>The \<^verbatim>\<open>memories\<close> of a response, when it has them.\<close>

definition response_memories :: "search_payload tool_result \<Rightarrow> reported_memory list option" where
  "response_memories r =
     (case payload r of SearchOk res \<Rightarrow> Some (sr_memories res) | SearchFailed _ _ \<Rightarrow> None)"

subsection \<open>The memory service's search\<close>

text \<open>
  Modelled from the spec: \<^verbatim>\<open>lib/conscious-memory.ts\<close>, which holds
  \<^verbatim>\<open>searchMemories\<close>, is not among the sources. A stored memory has the fields of
  the spec's data model that searching reads.
\<close>

record Memory =
  m_id :: string
  m_text :: string
  m_tags :: "string list"
  m_importance :: real
  m_sessionId :: "string option"
  m_context :: "string option"
  m_source :: string
  m_timestamp :: nat

text \<open>
  Modelled from the spec: the structural filters of step 2 of the search algorithm
  (a shared tag, the importance range, session equality), applied before scoring.
\<close>

definition matches :: "search_options \<Rightarrow> Memory \<Rightarrow> bool" where
  "matches opts m =
     ((case opt_tags opts of None \<Rightarrow> True
        | Some ts \<Rightarrow> ts = [] \<or> list_ex (\<lambda>t. List.member (m_tags m) t) ts)
      \<and> (case opt_importanceMin opts of None \<Rightarrow> True | Some lo \<Rightarrow> lo \<le> m_importance m)
      \<and> (case opt_importanceMax opts of None \<Rightarrow> True | Some hi \<Rightarrow> m_importance m \<le> hi)
      \<and> (case opt_sessionId opts of None \<Rightarrow> True | Some sid \<Rightarrow> m_sessionId m = Some sid))"

definition to_result :: "(string \<Rightarrow> Memory \<Rightarrow> real) \<Rightarrow> string \<Rightarrow> Memory \<Rightarrow> MemoryResult" where
  "to_result finalScore q m =
     \<lparr> res_id = m_id m,
       res_text = m_text m,
       res_tags = m_tags m,
       res_importance = m_importance m,
       res_score = finalScore q m,
       res_context = m_context m,
       res_source = m_source m,
       res_timestamp = Some (m_timestamp m) \<rparr>"

text \<open>
  Modelled from the spec: step 7, descending by score, ties broken by importance
  descending, then by timestamp descending.
\<close>

definition rank :: "MemoryResult list \<Rightarrow> MemoryResult list" where
  "rank rs =
     sort_key (\<lambda>r. (- res_score r, - res_importance r,
                     - (case res_timestamp r of None \<Rightarrow> 0 | Some t \<Rightarrow> int t))) rs"

text \<open>
  Modelled from the spec: the ranked, filtered sequence of a query (steps 2 to 7; the
  final score of steps 1 and 3 to 5 comes from the embedding provider and is the
  parameter \<open>finalScore\<close>). The cutoff is applied after ranking.
\<close>

definition ranked_results ::
  "(string \<Rightarrow> Memory \<Rightarrow> real) \<Rightarrow> Memory list \<Rightarrow> string \<Rightarrow> search_options \<Rightarrow> MemoryResult list" where
  "ranked_results finalScore store q opts =
     filter (\<lambda>r. opt_minScore opts \<le> res_score r)
       (rank (map (to_result finalScore q) (filter (matches opts) store)))"

text \<open>
  Modelled from the spec: \<^verbatim>\<open>searchMemories\<close>. An empty query with neither tags nor
  a session is rejected; otherwise the first \<^verbatim>\<open>limit\<close> entries of the ranked,
  filtered sequence are returned.
\<close>

definition searchMemories ::
  "(string \<Rightarrow> Memory \<Rightarrow> real) \<Rightarrow> Memory list \<Rightarrow> string \<Rightarrow> search_options
     \<Rightarrow> js_error + MemoryResult list" where
  "searchMemories finalScore store q opts =
     (if q = '''' \<and> opt_tags opts = None \<and> opt_sessionId opts = None
      then Inl (JsError ''query, tags or session required'')
      else Inr (take (opt_limit opts) (ranked_results finalScore store q opts)))"

subsection \<open>Pages of a search, and an example store\<close>

text \<open>The \<^verbatim>\<open>memories\<close> of the response for page \<open>p\<close> with page size \<open>s\<close>.\<close>

definition page_memories ::
  "(string \<Rightarrow> search_options \<Rightarrow> js_error + MemoryResult list) \<Rightarrow> search_memories_args
     \<Rightarrow> nat \<Rightarrow> nat \<Rightarrow> reported_memory list" where
  "page_memories svc args p s =
     (case response_memories (search_memories svc (args\<lparr>sa_page := Some p, sa_limit := Some s\<rparr>)) of
        Some ms \<Rightarrow> ms | None \<Rightarrow> [])"

text \<open>
  An example store of three memories, a scoring under which they score \<open>0.154\<close>,
  \<open>0.4\<close> and \<open>0.9\<close>, and the arguments of a search with \<^verbatim>\<open>minScore = 0.153\<close>.
\<close>

definition example_store :: "Memory list" where
  "example_store =
     [ \<lparr> m_id = ''a'', m_text = ''JavaScript is a programming language'',
         m_tags = [''javascript'', ''programming''], m_importance = 5, m_sessionId = None,
         m_context = None, m_source = ''explicit'', m_timestamp = 1 \<rparr>,
       \<lparr> m_id = ''b'', m_text = ''Python is great for data science'',
         m_tags = [''python'', ''data-science''], m_importance = 7, m_sessionId = None,
         m_context = None, m_source = ''explicit'', m_timestamp = 2 \<rparr>,
       \<lparr> m_id = ''c'', m_text = ''TypeScript adds types to JavaScript'',
         m_tags = [''typescript'', ''javascript''], m_importance = 8, m_sessionId = None,
         m_context = None, m_source = ''explicit'', m_timestamp = 3 \<rparr> ]"

definition example_score :: "string \<Rightarrow> Memory \<Rightarrow> real" where
  "example_score q m =
     (if m_id m = ''a'' then fl (154 / 1000) else if m_id m = ''b'' then fl (4 / 10) else fl (9 / 10))"

definition example_args :: search_memories_args where
  "example_args =
     \<lparr> sa_query = ''programming'', sa_tags = None, sa_importance_min = None,
       sa_importance_max = None, sa_limit = None, sa_page = None,
       sa_minScore = Some (fl (153 / 1000)), sa_sessionId = None \<rparr>"

section \<open>The \<^verbatim>\<open>delete_memory\<close> tool\<close>

datatype delete_payload =
  DeleteOk string string
  | DeleteNotDone string
  | DeleteFailed string string

text \<open>
  The handler. \<open>deleteMemory\<close> is the memory service's method, a parameter: it
  returns \<^verbatim>\<open>success\<close> or throws, and changes the store \<open>s\<close>. The response carries
  \<^verbatim>\<open>isError: !success\<close>.
\<close>

definition delete_memory ::
  "(string \<Rightarrow> 's \<Rightarrow> (js_error + bool) \<times> 's) \<Rightarrow> string \<Rightarrow> 's
     \<Rightarrow> delete_payload tool_result \<times> 's" where
  "delete_memory deleteMemory mid s =
     (case deleteMemory mid s of
        (Inr success, s') \<Rightarrow>
          (\<lparr> payload =
               (if success
                then DeleteOk mid (''Memory '' @ mid @ '' deleted successfully'')
                else DeleteNotDone (''Memory '' @ mid @ '' not found or could not be deleted'')),
             isError = (\<not> success) \<rparr>, s')
      | (Inl (JsError msg), s') \<Rightarrow>
          (\<lparr> payload = DeleteFailed ''Failed to delete conscious memory'' msg,
             isError = True \<rparr>, s'))"

text \<open>
  Modelled from the spec: \<^verbatim>\<open>deleteMemory\<close> of \<^verbatim>\<open>lib/conscious-memory.ts\<close>, which is
  not among the sources. It removes the record of the id and returns true; when the id
  is absent it returns false and changes nothing.
\<close>

definition deleteMemory :: "string \<Rightarrow> Memory list \<Rightarrow> (js_error + bool) \<times> Memory list" where
  "deleteMemory mid store =
     (if list_ex (\<lambda>m. m_id m = mid) store
      then (Inr True, filter (\<lambda>m. m_id m \<noteq> mid) store)
      else (Inr False, store))"

section \<open>Entity extraction: \<^verbatim>\<open>SimpleLLMService\<close>\<close>

text \<open>
  A property value of a node or relationship; the sync service only passes properties on.
\<close>

datatype property = PString string | PNumber real

type_synonym properties = "(string \<times> property) list"

record ExtractedEntity =
  entity_id :: string
  entity_label :: string
  entity_properties :: properties

record ExtractedRelationship =
  sourceEntityId :: string
  targetEntityId :: string
  er_type :: string
  er_properties :: "properties option"

text \<open>
  The model's reply is not validated: the value of a property that the source declares
  as an array is an array (\<open>Items\<close>, its elements read at the declared type) or some
  other truthy value that \<^verbatim>\<open>for...of\<close> cannot iterate, such as a number or an object
  (\<open>NotIterable\<close>).
\<close>

datatype 'a js_array = Items "'a list" | NotIterable

definition items :: "'a js_array \<Rightarrow> 'a list" where
  "items a = (case a of Items xs \<Rightarrow> xs | NotIterable \<Rightarrow> [])"

text \<open>\<^verbatim>\<open>a || []\<close> on such a property: missing and falsy values give the empty array.\<close>

definition or_array :: "'a js_array option \<Rightarrow> 'a js_array" where
  "or_array x = (case x of None \<Rightarrow> Items [] | Some a \<Rightarrow> a)"

record KnowledgeExtractionResult =
  entities :: "ExtractedEntity js_array"
  relationships :: "ExtractedRelationship js_array"

text \<open>
  What \<^verbatim>\<open>JSON.parse\<close> returned: the value \<^verbatim>\<open>null\<close>, or a value with its
  \<^verbatim>\<open>entities\<close> and \<^verbatim>\<open>relationships\<close> properties, \<^term>\<open>None\<close> when the property is
  missing or falsy.
\<close>

datatype parsed_json =
  ParsedNull
  | ParsedValue "ExtractedEntity js_array option" "ExtractedRelationship js_array option"

text \<open>
  The model call and the JSON parser are parameters: \<^verbatim>\<open>generateText\<close> returns the
  model's text for a prompt or throws, \<^verbatim>\<open>JSON.parse\<close> returns the parsed value or
  throws.
\<close>

record llm =
  generateText :: "string \<Rightarrow> js_error + string"
  json_parse :: "string \<Rightarrow> js_error + parsed_json"

definition newline :: char where
  "newline = CHR 0x0A"

definition dquote :: char where
  "dquote = CHR 0x22"

definition quoted :: "string \<Rightarrow> string" where
  "quoted s = dquote # s @ [dquote]"

text \<open>The white space \<^verbatim>\<open>trim\<close> removes, among the characters below 256.\<close>

definition is_space :: "char \<Rightarrow> bool" where
  "is_space c =
     (c \<in> set [CHR 0x09, CHR 0x0A, CHR 0x0B, CHR 0x0C, CHR 0x0D, CHR 0x20, CHR 0xA0])"

definition trim :: "string \<Rightarrow> string" where
  "trim s = rev (dropWhile is_space (rev (dropWhile is_space s)))"

definition drop_newline :: "string \<Rightarrow> string" where
  "drop_newline s = (case s of [] \<Rightarrow> [] | c # cs \<Rightarrow> if c = newline then cs else s)"

text \<open>
  \<^verbatim>\<open>s.replace(/pat\n?/g, '')\<close> for a literal \<open>pat\<close>: every match, found from left to
  right, is removed together with the newline that follows it, if there is one.
\<close>

function remove_fences :: "string \<Rightarrow> string \<Rightarrow> string" where
  "remove_fences pat [] = []"
| "remove_fences pat (c # cs) =
     (if pat \<noteq> [] \<and> prefix pat (c # cs)
      then remove_fences pat (drop_newline (drop (length pat) (c # cs)))
      else c # remove_fences pat cs)"
  by pat_completeness auto
termination
proof (relation "measure (\<lambda>(pat, s). length s)")
  show "wf (measure (\<lambda>(pat, s). length s))" by simp
next
  fix pat :: string and c cs
  assume "pat \<noteq> [] \<and> prefix pat (c # cs)"
  then have "0 < length pat" by simp
  then have less: "length (drop (length pat) (c # cs)) < length (c # cs)"
    by simp
  have "length (drop_newline t) \<le> length t" for t
    by (simp add: drop_newline_def split: list.splits)
  from this [of "drop (length pat) (c # cs)"] less
  have "length (drop_newline (drop (length pat) (c # cs))) < length (c # cs)"
    by linarith
  then show "((pat, drop_newline (drop (length pat) (c # cs))), pat, c # cs)
       \<in> measure (\<lambda>(pat, s). length s)"
    by simp
next
  fix pat :: string and c cs
  show "((pat, cs), pat, c # cs) \<in> measure (\<lambda>(pat, s). length s)" by simp
qed

text \<open>
  \<^verbatim>\<open>text.trim().replace(/```json\n?/g, '').replace(/```\n?/g, '').trim()\<close>
\<close>

definition clean_response :: "string \<Rightarrow> string" where
  "clean_response text = trim (remove_fences ''```'' (remove_fences ''```json'' (trim text)))"

text \<open>A markdown code fence occurs in the string.\<close>

fun has_fence :: "string \<Rightarrow> bool" where
  "has_fence [] = False"
| "has_fence (c # cs) = (prefix ''```'' (c # cs) \<or> has_fence cs)"

definition prompt :: "string \<Rightarrow> string" where
  "prompt content =
     ''Extract entities and relationships from the following text. Focus on:'' @ [newline]
     @ ''- People, organizations, technologies, concepts, projects'' @ [newline]
     @ ''- Actions, relationships, and connections between entities'' @ [newline]
     @ [newline]
     @ ''Text: '' @ quoted content @ [newline]
     @ [newline]
     @ ''Return ONLY valid JSON in this exact format:'' @ [newline]
     @ ''{'' @ [newline]
     @ ''  '' @ quoted ''entities'' @ '': ['' @ [newline]
     @ ''    {'' @ quoted ''id'' @ '': '' @ quoted ''unique_id'' @ '', '' @ quoted ''label'' @ '': ''
     @ quoted ''Person|Technology|Concept|Organization'' @ '', '' @ quoted ''properties'' @ '': {''
     @ quoted ''name'' @ '': '' @ quoted ''...'' @ '', '' @ quoted ''description'' @ '': ''
     @ quoted ''...'' @ ''}}'' @ [newline]
     @ ''  ],'' @ [newline]
     @ ''  '' @ quoted ''relationships'' @ '': ['' @ [newline]
     @ ''    {'' @ quoted ''sourceEntityId'' @ '': '' @ quoted ''entity1_id'' @ '', ''
     @ quoted ''targetEntityId'' @ '': '' @ quoted ''entity2_id'' @ '', '' @ quoted ''type'' @ '': ''
     @ quoted ''WORKS_ON|USES|RELATES_TO'' @ '', '' @ quoted ''properties'' @ '': {}}'' @ [newline]
     @ ''  ]'' @ [newline]
     @ ''}''"

definition empty_extraction :: KnowledgeExtractionResult where
  "empty_extraction = \<lparr> entities = Items [], relationships = Items [] \<rparr>"

text \<open>
  The body of the \<^verbatim>\<open>try\<close> block of \<^verbatim>\<open>extractKnowledge\<close>: the model call, the
  cleaning, the parse, and the read of \<^verbatim>\<open>result.entities || []\<close> and
  \<^verbatim>\<open>result.relationships || []\<close> (a property read on \<^verbatim>\<open>null\<close> throws a TypeError).
\<close>

definition extract_try :: "llm \<Rightarrow> string \<Rightarrow> js_error + KnowledgeExtractionResult" where
  "extract_try m content =
     (case generateText m (prompt content) of
        Inl e \<Rightarrow> Inl e
      | Inr text \<Rightarrow>
          (case json_parse m (clean_response text) of
             Inl e \<Rightarrow> Inl e
           | Inr ParsedNull \<Rightarrow> Inl (JsError ''TypeError: Cannot read properties of null'')
           | Inr (ParsedValue es rs) \<Rightarrow>
               Inr \<lparr> entities = or_array es, relationships = or_array rs \<rparr>))"

text \<open>
  \<^verbatim>\<open>extractKnowledge\<close>: the \<^verbatim>\<open>catch\<close> clause logs the error and returns the empty
  result. The result type keeps the \<open>Inl\<close> a caller would see if it could throw.
\<close>

definition extractKnowledge :: "llm \<Rightarrow> string \<Rightarrow> js_error + KnowledgeExtractionResult" where
  "extractKnowledge m content =
     (case extract_try m content of
        Inr result \<Rightarrow> Inr result
      | Inl e \<Rightarrow> Inr empty_extraction)"

section \<open>The sync service: \<^verbatim>\<open>SimpleSyncService\<close>\<close>

record KgNode =
  node_id :: string
  node_type :: string
  node_properties :: properties

record KgRelationship =
  rel_id :: string
  sourceNodeId :: string
  targetNodeId :: string
  rel_type :: string
  rel_properties :: properties

text \<open>
  The knowledge graph service (\<^verbatim>\<open>lib/knowledge-graph-service.ts\<close>, not among the
  sources) is a parameter. Over a graph state \<open>'g\<close>, a call returns \<^term>\<open>None\<close> when it
  resolves and \<open>Some e\<close> when it throws \<open>e\<close>, together with the state it leaves.
\<close>

record 'g kg_service =
  addNode :: "KgNode \<Rightarrow> 'g \<Rightarrow> js_error option \<times> 'g"
  addRelationship :: "KgRelationship \<Rightarrow> 'g \<Rightarrow> js_error option \<times> 'g"

record SyncResult =
  processed :: nat
  errors :: nat
  skipped :: nat

record sync_options =
  forceFullResync :: "bool option"

text \<open>
  What a \<^verbatim>\<open>SimpleSyncService\<close> holds and calls: the graph service, the memory store
  (\<^verbatim>\<open>initialize\<close>, which resolves or throws, and \<^verbatim>\<open>retrieveMemories(query, {limit})\<close>),
  the LLM service, and the clock: \<open>date_now i\<close> is \<^verbatim>\<open>Date.now()\<close> while the loop is at
  its \<open>i\<close>-th memory.
\<close>

record 'g sync_service =
  kgService :: "'g kg_service"
  memoryStore_initialize :: "js_error option"
  retrieveMemories :: "string \<Rightarrow> nat \<Rightarrow> js_error + MemoryResult list"
  llmService :: llm
  date_now :: "nat \<Rightarrow> nat"

text \<open>The memory node: id \<^verbatim>\<open>Memory_${memory.id}\<close>, timestamp
  \<^verbatim>\<open>memory.metadata.timestamp || Date.now()\<close>.\<close>

definition memoryNode_of :: "nat \<Rightarrow> MemoryResult \<Rightarrow> KgNode" where
  "memoryNode_of now memory =
     \<lparr> node_id = ''Memory_'' @ res_id memory,
       node_type = ''Memory'',
       node_properties =
         [ (''memoryId'', PString (res_id memory)),
           (''content'', PString (res_text memory)),
           (''timestamp'', PNumber (real (or_nat (res_timestamp memory) now))) ] \<rparr>"

definition entityNode_of :: "ExtractedEntity \<Rightarrow> KgNode" where
  "entityNode_of entity =
     \<lparr> node_id = entity_id entity,
       node_type = entity_label entity,
       node_properties = entity_properties entity \<rparr>"

text \<open>The link from the memory to an entity: id
  \<^verbatim>\<open>rel-${memoryNode.id}-mentions-${entity.id}\<close>, type \<^verbatim>\<open>MENTIONS\<close>.\<close>

definition memToEntity :: "KgNode \<Rightarrow> ExtractedEntity \<Rightarrow> KgRelationship" where
  "memToEntity memoryNode entity =
     \<lparr> rel_id = ''rel-'' @ node_id memoryNode @ ''-mentions-'' @ entity_id entity,
       sourceNodeId = node_id memoryNode,
       targetNodeId = entity_id entity,
       rel_type = ''MENTIONS'',
       rel_properties = [] \<rparr>"

text \<open>An extracted relationship: id
  \<^verbatim>\<open>rel-${rel.sourceEntityId}-${rel.type}-${rel.targetEntityId}\<close>.\<close>

definition relationship_of :: "ExtractedRelationship \<Rightarrow> KgRelationship" where
  "relationship_of rel =
     \<lparr> rel_id = ''rel-'' @ sourceEntityId rel @ ''-'' @ er_type rel @ ''-'' @ targetEntityId rel,
       sourceNodeId = sourceEntityId rel,
       targetNodeId = targetEntityId rel,
       rel_type = er_type rel,
       rel_properties = or_list (er_properties rel) \<rparr>"

text \<open>The loop over \<^verbatim>\<open>extraction.entities\<close>; a call that throws ends it.\<close>

fun add_entities ::
  "'g kg_service \<Rightarrow> KgNode \<Rightarrow> ExtractedEntity list \<Rightarrow> 'g \<Rightarrow> js_error option \<times> 'g" where
  "add_entities kg memoryNode [] g = (None, g)"
| "add_entities kg memoryNode (entity # rest) g =
     (case addNode kg (entityNode_of entity) g of
        (Some e, g1) \<Rightarrow> (Some e, g1)
      | (None, g1) \<Rightarrow>
          (case addRelationship kg (memToEntity memoryNode entity) g1 of
             (Some e, g2) \<Rightarrow> (Some e, g2)
           | (None, g2) \<Rightarrow> add_entities kg memoryNode rest g2))"

text \<open>The loop over \<^verbatim>\<open>extraction.relationships\<close>.\<close>

fun add_relationships ::
  "'g kg_service \<Rightarrow> ExtractedRelationship list \<Rightarrow> 'g \<Rightarrow> js_error option \<times> 'g" where
  "add_relationships kg [] g = (None, g)"
| "add_relationships kg (rel # rest) g =
     (case addRelationship kg (relationship_of rel) g of
        (Some e, g1) \<Rightarrow> (Some e, g1)
      | (None, g1) \<Rightarrow> add_relationships kg rest g1)"

text \<open>
  The body of the inner \<^verbatim>\<open>try\<close> for one memory (lines 45 to 94): \<^term>\<open>None\<close> when it
  runs to its end, \<open>Some e\<close> when some call throws \<open>e\<close>. \<^verbatim>\<open>for...of\<close> over a value
  that is not iterable throws a TypeError.
\<close>

definition not_iterable :: js_error where
  "not_iterable = JsError ''TypeError: value is not iterable''"

definition process_memory ::
  "'g kg_service \<Rightarrow> llm \<Rightarrow> nat \<Rightarrow> MemoryResult \<Rightarrow> 'g \<Rightarrow> js_error option \<times> 'g" where
  "process_memory kg m now memory g =
     (case extractKnowledge m (res_text memory) of
        Inl e \<Rightarrow> (Some e, g)
      | Inr extraction \<Rightarrow>
          (case addNode kg (memoryNode_of now memory) g of
             (Some e, g1) \<Rightarrow> (Some e, g1)
           | (None, g1) \<Rightarrow>
               (case entities extraction of
                  NotIterable \<Rightarrow> (Some not_iterable, g1)
                | Items es \<Rightarrow>
                    (case add_entities kg (memoryNode_of now memory) es g1 of
                       (Some e, g2) \<Rightarrow> (Some e, g2)
                     | (None, g2) \<Rightarrow>
                         (case relationships extraction of
                            NotIterable \<Rightarrow> (Some not_iterable, g2)
                          | Items rs \<Rightarrow> add_relationships kg rs g2)))))"

text \<open>
  \<^verbatim>\<open>for (const memory of memories)\<close> with its \<^verbatim>\<open>try\<close>/\<^verbatim>\<open>catch\<close>:
  \<^verbatim>\<open>result.processed++\<close> at the end of the body, \<^verbatim>\<open>result.errors++\<close> in the catch.
\<close>

fun sync_loop ::
  "'g sync_service \<Rightarrow> nat \<Rightarrow> MemoryResult list \<Rightarrow> 'g \<Rightarrow> SyncResult \<Rightarrow> SyncResult \<times> 'g" where
  "sync_loop svc i [] g result = (result, g)"
| "sync_loop svc i (memory # rest) g result =
     (case process_memory (kgService svc) (llmService svc) (date_now svc i) memory g of
        (None, g') \<Rightarrow>
          sync_loop svc (Suc i) rest g' (result\<lparr>processed := processed result + 1\<rparr>)
      | (Some e, g') \<Rightarrow>
          sync_loop svc (Suc i) rest g' (result\<lparr>errors := errors result + 1\<rparr>))"

text \<open>
  Lines 33 to 39: \<^verbatim>\<open>await this.memoryStore.initialize();
  const memories = await this.memoryStore.retrieveMemories('', { limit: 100 });\<close>
  The \<^verbatim>\<open>options\<close> are not read.
\<close>

definition select_memories :: "'g sync_service \<Rightarrow> sync_options \<Rightarrow> js_error + MemoryResult list" where
  "select_memories svc options =
     (case memoryStore_initialize svc of
        Some e \<Rightarrow> Inl e
      | None \<Rightarrow> retrieveMemories svc '''' 100)"

text \<open>
  \<^verbatim>\<open>syncKnowledgeGraph\<close>: an error of the store is rethrown; otherwise the result of
  the loop is returned. (The private \<^verbatim>\<open>lastSyncTime\<close>, written at the end and never
  read, is left out.)
\<close>

definition syncKnowledgeGraph ::
  "'g sync_service \<Rightarrow> sync_options \<Rightarrow> 'g \<Rightarrow> (js_error + SyncResult) \<times> 'g" where
  "syncKnowledgeGraph svc options g =
     (case select_memories svc options of
        Inl e \<Rightarrow> (Inl e, g)
      | Inr memories \<Rightarrow>
          (case sync_loop svc 0 memories g \<lparr> processed = 0, errors = 0, skipped = 0 \<rparr> of
             (result, g') \<Rightarrow> (Inr result, g')))"

subsection \<open>Outcomes, issued operations and graph services\<close>


text \<open>A call of the graph service, and the key it upserts under.\<close>

datatype kg_op = AddNode KgNode | AddRelationship KgRelationship

datatype kg_key = NodeKey string | RelKey string

fun op_key :: "kg_op \<Rightarrow> kg_key" where
  "op_key (AddNode n) = NodeKey (node_id n)"
| "op_key (AddRelationship r) = RelKey (rel_id r)"

text \<open>A graph service that never throws and records the calls it receives.\<close>

definition log_kg :: "kg_op list kg_service" where
  "log_kg =
     \<lparr> addNode = (\<lambda>n g. (None, g @ [AddNode n])),
       addRelationship = (\<lambda>r g. (None, g @ [AddRelationship r])) \<rparr>"

text \<open>The calls one memory gives rise to when no call of the graph service throws, and
  whether the body then runs to its end.\<close>

definition entity_ops :: "KgNode \<Rightarrow> ExtractedEntity \<Rightarrow> kg_op list" where
  "entity_ops memoryNode entity =
     [AddNode (entityNode_of entity), AddRelationship (memToEntity memoryNode entity)]"

definition memory_ops :: "nat \<Rightarrow> MemoryResult \<Rightarrow> KnowledgeExtractionResult \<Rightarrow> kg_op list" where
  "memory_ops now memory extraction =
     AddNode (memoryNode_of now memory)
       # (case entities extraction of
            NotIterable \<Rightarrow> []
          | Items es \<Rightarrow>
              concat (map (entity_ops (memoryNode_of now memory)) es)
                @ map (\<lambda>rel. AddRelationship (relationship_of rel))
                    (items (relationships extraction)))"

definition memory_outcome :: "KnowledgeExtractionResult \<Rightarrow> js_error option" where
  "memory_outcome extraction =
     (case entities extraction of
        NotIterable \<Rightarrow> Some not_iterable
      | Items es \<Rightarrow>
          (case relationships extraction of
             NotIterable \<Rightarrow> Some not_iterable
           | Items rs \<Rightarrow> None))"

text \<open>
  The keys under which a memory is projected into the graph: the node \<^verbatim>\<open>Memory_<id>\<close>,
  for each extracted entity its id and the relationship
  \<^verbatim>\<open>rel-Memory_<id>-mentions-<entity id>\<close>, and for each extracted relationship
  \<^verbatim>\<open>rel-<source>-<type>-<target>\<close>.
\<close>

definition projection_keys :: "MemoryResult \<Rightarrow> KnowledgeExtractionResult \<Rightarrow> kg_key set" where
  "projection_keys memory extraction =
     {NodeKey (''Memory_'' @ res_id memory)}
     \<union> (\<lambda>entity. NodeKey (entity_id entity)) ` set (items (entities extraction))
     \<union> (\<lambda>entity. RelKey (''rel-Memory_'' @ res_id memory @ ''-mentions-'' @ entity_id entity))
         ` set (items (entities extraction))
     \<union> (case entities extraction of
          NotIterable \<Rightarrow> {}
        | Items es \<Rightarrow>
            (\<lambda>rel. RelKey (''rel-'' @ sourceEntityId rel @ ''-'' @ er_type rel @ ''-''
                             @ targetEntityId rel))
              ` set (items (relationships extraction)))"

text \<open>
  Modelled from the spec: the graph store with merge semantics (create if absent, else
  no duplicate). Nodes and relationships are kept under their ids; an upsert never
  throws.
\<close>

record graph =
  kg_nodes :: "string \<rightharpoonup> KgNode"
  kg_rels :: "string \<rightharpoonup> KgRelationship"

definition empty_graph :: graph where
  "empty_graph = \<lparr> kg_nodes = Map.empty, kg_rels = Map.empty \<rparr>"

definition merge_node :: "KgNode \<Rightarrow> graph \<Rightarrow> graph" where
  "merge_node n g = g\<lparr>kg_nodes := (kg_nodes g)(node_id n \<mapsto> n)\<rparr>"

definition merge_relationship :: "KgRelationship \<Rightarrow> graph \<Rightarrow> graph" where
  "merge_relationship r g = g\<lparr>kg_rels := (kg_rels g)(rel_id r \<mapsto> r)\<rparr>"

definition merge_kg :: "graph kg_service" where
  "merge_kg =
     \<lparr> addNode = (\<lambda>n g. (None, merge_node n g)),
       addRelationship = (\<lambda>r g. (None, merge_relationship r g)) \<rparr>"

text \<open>The keys a graph holds.\<close>

definition graph_keys :: "graph \<Rightarrow> kg_key set" where
  "graph_keys g = NodeKey ` dom (kg_nodes g) \<union> RelKey ` dom (kg_rels g)"

subsection \<open>Runs without a throwing call\<close>

text \<open>The effect of a recorded call for a graph service that never throws.\<close>

fun apply_op :: "(KgNode \<Rightarrow> 'g \<Rightarrow> 'g) \<Rightarrow> (KgRelationship \<Rightarrow> 'g \<Rightarrow> 'g) \<Rightarrow> 'g \<Rightarrow> kg_op \<Rightarrow> 'g" where
  "apply_op an ar g (AddNode n) = an n g"
| "apply_op an ar g (AddRelationship r) = ar r g"

text \<open>The extraction the loop works with for a text.\<close>

definition extraction_of :: "llm \<Rightarrow> string \<Rightarrow> KnowledgeExtractionResult" where
  "extraction_of m content =
     (case extractKnowledge m content of Inr extraction \<Rightarrow> extraction | Inl e \<Rightarrow> empty_extraction)"

text \<open>The calls a whole run gives rise to, from the \<open>i\<close>-th memory on, when none throws.\<close>

fun sync_ops :: "llm \<Rightarrow> (nat \<Rightarrow> nat) \<Rightarrow> nat \<Rightarrow> MemoryResult list \<Rightarrow> kg_op list" where
  "sync_ops m clock i [] = []"
| "sync_ops m clock i (memory # rest) =
     memory_ops (clock i) memory (extraction_of m (res_text memory)) @ sync_ops m clock (Suc i) rest"

text \<open>A sync service with another graph service in place of its own.\<close>

definition with_kg :: "'h kg_service \<Rightarrow> 'g sync_service \<Rightarrow> 'h sync_service" where
  "with_kg kg svc =
     \<lparr> kgService = kg,
       memoryStore_initialize = memoryStore_initialize svc,
       retrieveMemories = retrieveMemories svc,
       llmService = llmService svc,
       date_now = date_now svc \<rparr>"

subsection \<open>An example service\<close>

definition example_json :: string where
  "example_json =
     ''{'' @ quoted ''entities'' @ '':[{'' @ quoted ''id'' @ '':'' @ quoted ''ada'' @ '',''
       @ quoted ''label'' @ '':'' @ quoted ''Person'' @ ''}],''
       @ quoted ''relationships'' @ '':[]}''"

definition example_extraction :: KnowledgeExtractionResult where
  "example_extraction =
     \<lparr> entities =
         Items [\<lparr> entity_id = ''ada'', entity_label = ''Person'', entity_properties = [] \<rparr>],
       relationships = Items [] \<rparr>"

definition example_llm :: llm where
  "example_llm =
     \<lparr> generateText = (\<lambda>p. Inr (''```json'' @ [newline] @ example_json @ [newline] @ ''```'')),
       json_parse = (\<lambda>s. if s = example_json
                         then Inr (ParsedValue (Some (entities example_extraction)) None)
                         else Inl (JsError ''SyntaxError'')) \<rparr>"

definition example_memories :: "MemoryResult list" where
  "example_memories =
     [ \<lparr> res_id = ''m1'', res_text = ''Ada proves theorems'', res_tags = [''tag1''],
         res_importance = 5, res_score = 1, res_context = None, res_source = ''explicit'',
         res_timestamp = Some 5 \<rparr>,
       \<lparr> res_id = ''m2'', res_text = ''Ada writes programs'', res_tags = [],
         res_importance = 7, res_score = 1, res_context = None, res_source = ''explicit'',
         res_timestamp = None \<rparr> ]"

definition example_sync :: "'g kg_service \<Rightarrow> 'g sync_service" where
  "example_sync kg =
     \<lparr> kgService = kg,
       memoryStore_initialize = None,
       retrieveMemories = (\<lambda>q limit. Inr (take limit example_memories)),
       llmService = example_llm,
       date_now = (\<lambda>i. 1000 + i) \<rparr>"


definition other_llm :: llm where
  "other_llm =
     example_llm\<lparr>json_parse := (\<lambda>s. Inr (ParsedValue
        (Some (Items [\<lparr> entity_id = ''bob'', entity_label = ''Person'', entity_properties = [] \<rparr>]))
        None))\<rparr>"

definition untyped_llm :: llm where
  "untyped_llm = example_llm\<lparr>json_parse := (\<lambda>s. Inr (ParsedValue (Some NotIterable) None))\<rparr>"


section \<open>Rounding to binary64\<close>

lemma pow2_powr: "pow2 e = 2 powr (of_int e)"
  by (simp add: pow2_def powr_real_of_int)

lemma pow2_pos: "0 < pow2 e"
  by (simp add: pow2_powr)

lemma pow2_add: "pow2 (a + b) = pow2 a * pow2 b"
  by (simp add: pow2_powr powr_add)

lemma pow2_mono: "a \<le> b \<Longrightarrow> pow2 a \<le> pow2 b"
  by (simp add: pow2_powr)

lemma round_even_bounds: "x - 1 / 2 \<le> of_int (round_even x)" "of_int (round_even x) \<le> x + 1 / 2"
  unfolding round_even_def by (auto; linarith)+

lemma round_even_of_int: "round_even (of_int k) = k"
  by (simp add: round_even_def)

lemma round_even_mono:
  assumes "x \<le> y"
  shows "round_even x \<le> round_even y"
proof (cases "\<lfloor>x\<rfloor> = \<lfloor>y\<rfloor>")
  case True
  with assms show ?thesis
    by (auto simp: round_even_def)
next
  case False
  with assms have "\<lfloor>x\<rfloor> + 1 \<le> \<lfloor>y\<rfloor>"
    using floor_mono [OF assms] by linarith
  moreover have "round_even x \<le> \<lfloor>x\<rfloor> + 1" "\<lfloor>y\<rfloor> \<le> round_even y"
    by (auto simp: round_even_def)
  ultimately show ?thesis by linarith
qed

lemma ulp_exp_bounds:
  assumes "0 < x"
  shows "pow2 (ulp_exp x + 52) \<le> x" "x < pow2 (ulp_exp x + 53)"
proof -
  have "\<lfloor>log 2 x\<rfloor> = ulp_exp x + 52"
    using assms by (simp add: ulp_exp_def)
  then have "2 powr (of_int (ulp_exp x + 52)) \<le> x \<and> x < 2 powr (of_int (ulp_exp x + 52) + 1)"
    using assms by (simp add: floor_log_eq_powr_iff)
  then show "pow2 (ulp_exp x + 52) \<le> x" "x < pow2 (ulp_exp x + 53)"
    by (simp_all add: pow2_powr add.commute)
qed

lemma ulp_exp_eq:
  assumes "pow2 (e + 52) \<le> x" "x < pow2 (e + 53)"
  shows "ulp_exp x = e"
proof -
  have pos: "0 < x"
    using assms(1) pow2_pos [of "e + 52"] by linarith
  have "2 powr (of_int (e + 52)) \<le> x \<and> x < 2 powr (of_int (e + 52) + 1)"
    using assms by (simp add: pow2_powr add.commute)
  then have "\<lfloor>log 2 x\<rfloor> = e + 52"
    using pos by (simp add: floor_log_eq_powr_iff)
  with pos show ?thesis by (simp add: ulp_exp_def)
qed

lemma fl_eval:
  assumes "pow2 (e + 52) \<le> x" "x < pow2 (e + 53)"
  shows "fl x = of_int (round_even (x / pow2 e)) * pow2 e"
proof -
  have pos: "0 < x"
    using assms(1) pow2_pos [of "e + 52"] by linarith
  with ulp_exp_eq [OF assms] show ?thesis
    by (simp add: fl_def)
qed

lemma fl_pos_def:
  assumes "0 < x"
  shows "fl x = of_int (round_even (x / pow2 (ulp_exp x))) * pow2 (ulp_exp x)"
  using assms by (simp add: fl_def)

lemma fl_bounds:
  assumes "0 < x"
  shows "pow2 (ulp_exp x + 52) \<le> fl x" "fl x \<le> pow2 (ulp_exp x + 53)"
proof -
  let ?u = "pow2 (ulp_exp x)"
  have u: "0 < ?u" by (rule pow2_pos)
  have lo: "(2 ^ 52 :: real) \<le> x / ?u"
    using ulp_exp_bounds(1) [OF assms] u by (simp add: pow2_add pow2_def [of 52] field_simps)
  have hi: "x / ?u \<le> (2 ^ 53 :: real)"
    using ulp_exp_bounds(2) [OF assms] u by (simp add: pow2_add pow2_def [of 53] field_simps)
  have "round_even (of_int (2 ^ 52)) \<le> round_even (x / ?u)"
    by (rule round_even_mono) (use lo in simp)
  then have lo': "(2 ^ 52 :: real) \<le> of_int (round_even (x / ?u))"
    unfolding round_even_of_int by (metis of_int_le_iff of_int_numeral of_int_power)
  have "round_even (x / ?u) \<le> round_even (of_int (2 ^ 53))"
    by (rule round_even_mono) (use hi in simp)
  then have hi': "of_int (round_even (x / ?u)) \<le> (2 ^ 53 :: real)"
    unfolding round_even_of_int by (metis of_int_le_iff of_int_numeral of_int_power)
  have "pow2 (ulp_exp x + 52) = 2 ^ 52 * ?u" "pow2 (ulp_exp x + 53) = 2 ^ 53 * ?u"
    by (simp_all add: pow2_add pow2_def [of 52] pow2_def [of 53])
  with lo' hi' u show "pow2 (ulp_exp x + 52) \<le> fl x" "fl x \<le> pow2 (ulp_exp x + 53)"
    by (simp_all add: fl_pos_def [OF assms])
qed

lemma fl_nonneg:
  assumes "0 \<le> x"
  shows "0 \<le> fl x"
proof (cases "x = 0")
  case True
  then show ?thesis by (simp add: fl_def)
next
  case False
  with assms have "0 < x" by simp
  from fl_bounds(1) [OF this] pow2_pos [of "ulp_exp x + 52"] show ?thesis by linarith
qed

lemma fl_mono:
  assumes "0 \<le> x" "x \<le> y"
  shows "fl x \<le> fl y"
proof (cases "x = 0")
  case True
  with assms fl_nonneg [of y] show ?thesis by (simp add: fl_def)
next
  case False
  with assms have x: "0 < x" and y: "0 < y" by simp_all
  have exps: "ulp_exp x \<le> ulp_exp y"
    using x y assms(2) by (simp add: ulp_exp_def floor_mono)
  show ?thesis
  proof (cases "ulp_exp x = ulp_exp y")
    case True
    have "x / pow2 (ulp_exp y) \<le> y / pow2 (ulp_exp y)"
      using assms(2) pow2_pos [of "ulp_exp y"] by (simp add: divide_right_mono)
    then have "round_even (x / pow2 (ulp_exp y)) \<le> round_even (y / pow2 (ulp_exp y))"
      by (rule round_even_mono)
    then show ?thesis
      using pow2_pos [of "ulp_exp y"] by (simp add: fl_pos_def [OF x] fl_pos_def [OF y] True)
  next
    case False
    with exps have "ulp_exp x + 53 \<le> ulp_exp y + 52" by simp
    then have "pow2 (ulp_exp x + 53) \<le> pow2 (ulp_exp y + 52)"
      by (rule pow2_mono)
    with fl_bounds(2) [OF x] fl_bounds(1) [OF y] show ?thesis by linarith
  qed
qed

lemma fl_zero: "fl 0 = 0"
  by (simp add: fl_def)

lemma fl_ten: "fl 10 = 10"
  by (subst fl_eval [of "- 49"]) (simp_all add: pow2_def round_even_def)

lemma fl_seven_tenths: "fl (7 / 10) = 6305039478318694 / 2 ^ 53"
  by (subst fl_eval [of "- 53"]) (simp_all add: pow2_def round_even_def)

lemma fl_three_tenths: "fl (3 / 10) = 5404319552844595 / 2 ^ 54"
  by (subst fl_eval [of "- 54"]) (simp_all add: pow2_def round_even_def)

lemma double_seven_tenths: "is_double (fl (7 / 10))"
  unfolding is_double_def fl_seven_tenths
  by (subst fl_eval [of "- 53"]) (simp_all add: pow2_def round_even_def)

lemma double_three_tenths: "is_double (fl (3 / 10))"
  unfolding is_double_def fl_three_tenths
  by (subst fl_eval [of "- 54"]) (simp_all add: pow2_def round_even_def)

lemma double_five_halves: "is_double (5 / 2)"
  unfolding is_double_def
  by (subst fl_eval [of "- 51"]) (simp_all add: pow2_def round_even_def)

lemma double_eight: "is_double 8"
  unfolding is_double_def
  by (subst fl_eval [of "- 49"]) (simp_all add: pow2_def round_even_def)

lemma ten_times_seven_tenths: "js_mul 10 (fl (7 / 10)) = 7"
  unfolding js_mul_def fl_seven_tenths
  by (subst fl_eval [of "- 50"]) (simp_all add: pow2_def round_even_def)

lemma ten_times_three_tenths: "js_mul 10 (fl (3 / 10)) = 3"
  unfolding js_mul_def fl_three_tenths
  by (subst fl_eval [of "- 51"]) (simp_all add: pow2_def round_even_def)

lemma fl_scores:
  "fl (154 / 1000) = 5548434740920451 / 2 ^ 55"
  "fl (153 / 1000) = 5512405943901487 / 2 ^ 55"
  "fl (15 / 100) = 5404319552844595 / 2 ^ 55"
  "fl (4 / 10) = 7205759403792794 / 2 ^ 54"
  "fl (9 / 10) = 8106479329266893 / 2 ^ 53"
  by (subst fl_eval [of "- 55"], simp_all add: pow2_def round_even_def,
      subst fl_eval [of "- 55"], simp_all add: pow2_def round_even_def,
      subst fl_eval [of "- 55"], simp_all add: pow2_def round_even_def,
      subst fl_eval [of "- 54"], simp_all add: pow2_def round_even_def,
      subst fl_eval [of "- 53"], simp_all add: pow2_def round_even_def)

lemma double_scores: "is_double (fl (153 / 1000))" "is_double (fl (3 / 10))"
  unfolding is_double_def fl_scores fl_three_tenths
  by (subst fl_eval [of "- 55"], simp_all add: pow2_def round_even_def,
      subst fl_eval [of "- 54"], simp_all add: pow2_def round_even_def)

section \<open>Importance at save time\<close>

lemma safeImportance_unit_interval:
  assumes "0 < x" "x < 1"
  shows "safeImportance (Some x) = max 1 (of_int \<lfloor>js_mul 10 x\<rfloor>)"
  using assms by (simp add: safeImportance_def or_num_def math_floor_def)

lemma safeImportance_pass:
  assumes "1 \<le> x"
  shows "safeImportance (Some x) = x"
  using assms by (simp add: safeImportance_def or_num_def)

lemma floor_ten_bounds:
  assumes "0 < x" "x < 1"
  shows "0 \<le> \<lfloor>js_mul 10 x\<rfloor>" "\<lfloor>js_mul 10 x\<rfloor> \<le> 10"
proof -
  have "0 \<le> fl (10 * x)"
    using assms by (intro fl_nonneg) simp
  then show "0 \<le> \<lfloor>js_mul 10 x\<rfloor>"
    by (simp add: js_mul_def)
  have "fl (10 * x) \<le> fl 10"
    using assms by (intro fl_mono) simp_all
  then have "js_mul 10 x \<le> 10"
    by (simp add: js_mul_def fl_ten)
  then show "\<lfloor>js_mul 10 x\<rfloor> \<le> 10"
    by (simp add: floor_le_iff)
qed

text \<open>
  C10. When \<^verbatim>\<open>importance\<close> is omitted or is exactly \<open>0\<close> (which the schema admits),
  the handler passes the default \<open>5\<close> to \<^verbatim>\<open>saveMemory\<close> and reports it in the
  summary: \<open>0\<close> is falsy for \<^verbatim>\<open>importance || 5\<close>, so it is neither rejected nor rescaled.
\<close>

theorem save_memory_importance_zero_or_omitted:
  "importance_schema (Some 0)
   \<and> importance_schema None
   \<and> p_importance (save_memory_params (args\<lparr>save_importance := Some 0\<rparr>)) = 5
   \<and> p_importance (save_memory_params (args\<lparr>save_importance := None\<rparr>)) = 5"
  by (simp add: importance_schema_def is_double_def fl_zero save_memory_params_def
      safeImportance_def or_num_def)

text \<open>
  C2, as the code has it. For an importance the schema admits: a value \<open>x\<close> in the
  open interval \<open>(0, 1)\<close> becomes the integer \<open>max 1 \<lfloor>10 * x\<rfloor>\<close>, the product being the
  binary64 one (the numbers written \<open>0.7\<close> and \<open>0.3\<close> become \<open>7\<close> and \<open>3\<close>); a value
  \<open>\<ge> 1\<close> is passed on unchanged (\<open>8\<close> stays \<open>8\<close>); the value passed on always lies in
  \<open>[1, 10]\<close>, and it is an integer whenever the supplied value is an integer or is
  below \<open>1\<close>.
\<close>

theorem save_memory_importance_rescaled:
  assumes "importance_schema (Some x)"
  shows "(0 < x \<and> x < 1 \<longrightarrow>
            p_importance (save_memory_params (args\<lparr>save_importance := Some x\<rparr>))
              = max 1 (of_int \<lfloor>js_mul 10 x\<rfloor>))
       \<and> (1 \<le> x \<longrightarrow>
            p_importance (save_memory_params (args\<lparr>save_importance := Some x\<rparr>)) = x)
       \<and> 1 \<le> p_importance (save_memory_params (args\<lparr>save_importance := Some x\<rparr>))
       \<and> p_importance (save_memory_params (args\<lparr>save_importance := Some x\<rparr>)) \<le> 10
       \<and> (x \<in> \<int> \<or> x < 1 \<longrightarrow>
            p_importance (save_memory_params (args\<lparr>save_importance := Some x\<rparr>)) \<in> \<int>)
       \<and> p_importance (save_memory_params (args\<lparr>save_importance := Some (fl (7 / 10))\<rparr>)) = 7
       \<and> p_importance (save_memory_params (args\<lparr>save_importance := Some (fl (3 / 10))\<rparr>)) = 3
       \<and> p_importance (save_memory_params (args\<lparr>save_importance := Some 8\<rparr>)) = 8"
proof -
  have imp: "p_importance (save_memory_params (args\<lparr>save_importance := Some y\<rparr>))
               = safeImportance (Some y)" for y
    by (simp add: save_memory_params_def)
  from assms have range: "0 \<le> x" "x \<le> 10"
    by (simp_all add: importance_schema_def)
  consider (zero) "x = 0" | (unit) "0 < x" "x < 1" | (pass) "1 \<le> x"
    using range by linarith
  then have main:
    "(0 < x \<and> x < 1 \<longrightarrow> safeImportance (Some x) = max 1 (of_int \<lfloor>js_mul 10 x\<rfloor>))
     \<and> (1 \<le> x \<longrightarrow> safeImportance (Some x) = x)
     \<and> 1 \<le> safeImportance (Some x) \<and> safeImportance (Some x) \<le> 10
     \<and> (x \<in> \<int> \<or> x < 1 \<longrightarrow> safeImportance (Some x) \<in> \<int>)"
  proof cases
    case zero
    then show ?thesis by (simp add: safeImportance_def or_num_def)
  next
    case unit
    have eq: "safeImportance (Some x) = max 1 (of_int \<lfloor>js_mul 10 x\<rfloor>)"
      using unit by (rule safeImportance_unit_interval)
    have "real_of_int \<lfloor>js_mul 10 x\<rfloor> \<le> 10"
      using floor_ten_bounds(2) [OF unit] by linarith
    moreover have "max 1 (real_of_int \<lfloor>js_mul 10 x\<rfloor>) \<in> \<int>"
      by (simp add: max_def)
    ultimately show ?thesis using unit eq by simp
  next
    case pass
    then show ?thesis using range by (simp add: safeImportance_pass)
  qed
  have "0 < fl (7 / 10)" and "fl (7 / 10) < 1"
    unfolding fl_seven_tenths by simp_all
  then have "safeImportance (Some (fl (7 / 10))) = max 1 (of_int \<lfloor>js_mul 10 (fl (7 / 10))\<rfloor>)"
    by (rule safeImportance_unit_interval)
  then have seven: "safeImportance (Some (fl (7 / 10))) = 7"
    unfolding ten_times_seven_tenths by simp
  have "0 < fl (3 / 10)" and "fl (3 / 10) < 1"
    unfolding fl_three_tenths by simp_all
  then have "safeImportance (Some (fl (3 / 10))) = max 1 (of_int \<lfloor>js_mul 10 (fl (3 / 10))\<rfloor>)"
    by (rule safeImportance_unit_interval)
  then have three: "safeImportance (Some (fl (3 / 10))) = 3"
    unfolding ten_times_three_tenths by simp
  have "safeImportance (Some 8) = 8"
    by (simp add: safeImportance_def or_num_def)
  with main seven three show ?thesis by (simp only: imp) simp
qed

text \<open>C2 on the importance written \<open>0.3\<close>, which is stored as \<open>3\<close>.\<close>

theorem save_memory_importance_rescaled_witness:
  "importance_schema (Some (fl (3 / 10)))
   \<and> p_importance (save_memory_params
        \<lparr> save_content = ''note'', save_tags = None, save_importance = Some (fl (3 / 10)),
          save_context = None, save_sessionId = None \<rparr>) = 3"
proof -
  have "0 \<le> fl (3 / 10)" and "fl (3 / 10) \<le> 10"
    unfolding fl_three_tenths by simp_all
  with double_three_tenths have schema: "importance_schema (Some (fl (3 / 10)))"
    unfolding importance_schema_def by simp
  from save_memory_importance_rescaled
    [OF schema, of "\<lparr> save_content = ''note'', save_tags = None, save_importance = None,
          save_context = None, save_sessionId = None \<rparr>"]
    schema
  show ?thesis by simp
qed

text \<open>
  C2 as the specification states it fails: the schema admits \<open>2.5\<close>, the handler passes
  it on unchanged, and \<open>2.5\<close> is not an integer.
\<close>

theorem save_memory_importance_counterexample:
  "importance_schema (Some (5 / 2))
   \<and> p_importance (save_memory_params
        \<lparr> save_content = ''note'', save_tags = None, save_importance = Some (5 / 2),
          save_context = None, save_sessionId = None \<rparr>) = 5 / 2
   \<and> (5 / 2 :: real) \<notin> \<int>"
proof -
  have "(5 / 2 :: real) \<notin> \<int>"
  proof
    assume "(5 / 2 :: real) \<in> \<int>"
    then obtain k :: int where k: "(5 / 2 :: real) = of_int k"
      by (auto elim: Ints_cases)
    then have "(5 :: real) = of_int (2 * k)" by simp
    then have "(5 :: int) = 2 * k" by linarith
    then show False by presburger
  qed
  then show ?thesis
    using double_five_halves
    by (simp add: importance_schema_def save_memory_params_def safeImportance_def or_num_def)
qed

section \<open>Searching: pagination and the score cutoff\<close>

lemma slice_take:
  assumes "b \<le> n"
  shows "slice a b (take n xs) = slice a b xs"
proof -
  have "drop a (take n xs) = take (n - a) (drop a xs)"
    by (simp add: drop_take)
  moreover have "min (b - a) (n - a) = b - a"
    using assms by simp
  ultimately show ?thesis
    by (simp add: slice_def)
qed

lemma slice_beyond:
  assumes "length xs \<le> a"
  shows "slice a b xs = []"
  using assms by (simp add: slice_def)

lemma concat_slices:
  "concat (map (\<lambda>i. slice ((i - 1) * s) (i * s) xs) [1..<Suc k]) = take (k * s) xs"
proof (induction k)
  case 0
  then show ?case by simp
next
  case (Suc k)
  have "Suc k * s = k * s + s" by simp
  then have "take (k * s) xs @ slice (k * s) (Suc k * s) xs = take (Suc k * s) xs"
    by (simp only: slice_def take_add diff_add_inverse)
  with Suc show ?case by simp
qed

lemma paged_args:
  assumes "1 \<le> p" "1 \<le> s"
  shows "pageSize (args\<lparr>sa_page := Some p, sa_limit := Some s\<rparr>) = s"
    and "currentPage (args\<lparr>sa_page := Some p, sa_limit := Some s\<rparr>) = p"
    and "offset (args\<lparr>sa_page := Some p, sa_limit := Some s\<rparr>) = (p - 1) * s"
    and "search_options_of (args\<lparr>sa_page := Some p, sa_limit := Some s\<rparr>)
           = (search_options_of args)\<lparr>opt_limit := (p - 1) * s + s * 2\<rparr>"
  using assms
  by (simp_all add: pageSize_def currentPage_def offset_def search_options_of_def or_nat_def)

lemma page_response:
  assumes svc: "\<And>n. svc (sa_query args) ((search_options_of args)\<lparr>opt_limit := n\<rparr>) = Inr (take n ranked)"
    and p: "1 \<le> p" and s: "1 \<le> s"
  shows "response_memories (search_memories svc (args\<lparr>sa_page := Some p, sa_limit := Some s\<rparr>))
           = Some (map report_memory (slice ((p - 1) * s) (p * s) ranked))"
    and "isError (search_memories svc (args\<lparr>sa_page := Some p, sa_limit := Some s\<rparr>)) = False"
proof -
  let ?args = "args\<lparr>sa_page := Some p, sa_limit := Some s\<rparr>"
  have q: "sa_query ?args = sa_query args" by simp
  have call: "svc (sa_query ?args) (search_options_of ?args) = Inr (take ((p - 1) * s + s * 2) ranked)"
    unfolding q paged_args(4) [OF p s] by (rule svc)
  have ps: "(p - 1) * s + s = p * s"
    using p by (cases p) simp_all
  have pg: "paginatedResults ?args (take ((p - 1) * s + s * 2) ranked) = slice ((p - 1) * s) (p * s) ranked"
    unfolding paginatedResults_def paged_args(1,3) [OF p s] ps
    by (rule slice_take) (use ps in simp)
  show "response_memories (search_memories svc ?args)
           = Some (map report_memory (slice ((p - 1) * s) (p * s) ranked))"
    unfolding search_memories_def call response_memories_def
    using pg by (simp add: Let_def)
  show "isError (search_memories svc ?args) = False"
    unfolding search_memories_def call
    by (simp add: Let_def)
qed

text \<open>
  C3. Let \<open>ranked\<close> be the ranked, filtered sequence of a fixed query over a fixed data
  set, and let the memory service return its first \<^verbatim>\<open>limit\<close> entries. Then for every
  page \<open>p \<ge> 1\<close> and page size \<open>s \<ge> 1\<close> the handler returns exactly the entries at
  positions \<open>[(p - 1) * s, p * s)\<close> of \<open>ranked\<close>, never as an error; a page beyond the
  result count is empty; and pages \<open>1, \<dots>, k\<close> in order are the first \<open>k * s\<close>
  entries of \<open>ranked\<close>: consecutive pages neither overlap nor leave a gap.
\<close>

theorem search_memories_page_slice:
  assumes svc: "\<And>n. svc (sa_query args) ((search_options_of args)\<lparr>opt_limit := n\<rparr>) = Inr (take n ranked)"
    and p: "1 \<le> p" and s: "1 \<le> s"
  shows "response_memories (search_memories svc (args\<lparr>sa_page := Some p, sa_limit := Some s\<rparr>))
           = Some (map report_memory (slice ((p - 1) * s) (p * s) ranked))
       \<and> \<not> isError (search_memories svc (args\<lparr>sa_page := Some p, sa_limit := Some s\<rparr>))
       \<and> (length ranked \<le> (p - 1) * s \<longrightarrow> page_memories svc args p s = [])
       \<and> concat (map (\<lambda>i. page_memories svc args i s) [1..<Suc k]) = map report_memory (take (k * s) ranked)"
proof -
  have pm: "page_memories svc args i s = map report_memory (slice ((i - 1) * s) (i * s) ranked)"
    if "1 \<le> i" for i
    using page_response(1) [of svc args ranked i s, OF svc that s]
    by (simp add: page_memories_def)
  have "map (\<lambda>i. page_memories svc args i s) [1..<Suc k]
          = map (\<lambda>i. map report_memory (slice ((i - 1) * s) (i * s) ranked)) [1..<Suc k]"
  proof (rule map_cong)
    fix i assume "i \<in> set [1..<Suc k]"
    then have "1 \<le> i" by (simp del: upt_Suc)
    then show "page_memories svc args i s = map report_memory (slice ((i - 1) * s) (i * s) ranked)"
      by (rule pm)
  qed simp
  then have "concat (map (\<lambda>i. page_memories svc args i s) [1..<Suc k])
          = concat (map (\<lambda>i. map report_memory (slice ((i - 1) * s) (i * s) ranked)) [1..<Suc k])"
    by (simp only:)
  also have "\<dots> = map report_memory (concat (map (\<lambda>i. slice ((i - 1) * s) (i * s) ranked) [1..<Suc k]))"
    by (simp only: map_concat map_map comp_def)
  also have "\<dots> = map report_memory (take (k * s) ranked)"
    by (simp only: concat_slices)
  finally have parts: "concat (map (\<lambda>i. page_memories svc args i s) [1..<Suc k])
          = map report_memory (take (k * s) ranked)" .
  show ?thesis
    using page_response [of svc args ranked p s, OF svc p s] parts pm [OF p]
    by (simp add: slice_beyond)
qed

lemma searchMemories_limit:
  assumes "q \<noteq> []"
  shows "searchMemories finalScore store q (opts\<lparr>opt_limit := n\<rparr>)
           = Inr (take n (ranked_results finalScore store q opts))"
proof -
  have "matches (opts\<lparr>opt_limit := n\<rparr>) = matches opts"
    by (rule ext) (simp add: matches_def)
  with assms show ?thesis
    by (simp add: searchMemories_def ranked_results_def)
qed

lemma example_score_values:
  "example_score q m =
     (if m_id m = ''a'' then 5548434740920451 / 2 ^ 55
      else if m_id m = ''b'' then 7205759403792794 / 2 ^ 54 else 8106479329266893 / 2 ^ 53)"
  unfolding example_score_def fl_scores by (rule refl)

lemma example_ranked:
  "ranked_results example_score example_store ''programming'' (search_options_of example_args)
     = map (to_result example_score ''programming'') [example_store ! 2, example_store ! 1, example_store ! 0]"
  unfolding search_options_of_def example_args_def fl_scores
  by (simp add: ranked_results_def rank_def example_store_def example_score_values
      matches_def to_result_def or_num_def)

text \<open>
  C3 on three stored memories and the spec's search: page 2 of size 2 holds the third
  hit, page 3 is empty, and pages 1 and 2 together are all three hits in rank order.
\<close>

theorem search_memories_page_slice_witness:
  "response_memories (search_memories (searchMemories example_score example_store)
       (example_args\<lparr>sa_page := Some 2, sa_limit := Some 2\<rparr>))
     = Some [report_memory (to_result example_score ''programming'' (example_store ! 0))]
   \<and> page_memories (searchMemories example_score example_store) example_args 3 2 = []
   \<and> concat (map (\<lambda>i. page_memories (searchMemories example_score example_store) example_args i 2) [1..<Suc 2])
        = map (report_memory \<circ> to_result example_score ''programming'')
            [example_store ! 2, example_store ! 1, example_store ! 0]"
proof -
  let ?ranked = "ranked_results example_score example_store ''programming'' (search_options_of example_args)"
  have q: "sa_query example_args = ''programming''"
    by (simp add: example_args_def)
  have svc: "searchMemories example_score example_store (sa_query example_args)
               ((search_options_of example_args)\<lparr>opt_limit := n\<rparr>) = Inr (take n ?ranked)" for n
    unfolding q by (rule searchMemories_limit) simp
  have len: "length ?ranked \<le> (3 - 1) * 2"
    by (simp add: example_ranked)
  from search_memories_page_slice [of "searchMemories example_score example_store" example_args ?ranked 2 2 2, OF svc]
    search_memories_page_slice [of "searchMemories example_score example_store" example_args ?ranked 3 2 0, OF svc]
    len
  show ?thesis
    by (simp add: example_ranked slice_def)
qed

lemma math_round_mono: "x \<le> y \<Longrightarrow> math_round x \<le> math_round y"
  by (simp add: math_round_def floor_mono)

lemma math_round_nonneg: "0 \<le> x \<Longrightarrow> 0 \<le> math_round x"
  by (simp add: math_round_def)

lemma round2_mono:
  assumes "0 \<le> s" "s \<le> t"
  shows "round2 s \<le> round2 t"
proof -
  have "fl (s * 100) \<le> fl (t * 100)"
    using assms by (intro fl_mono) simp_all
  then have le: "math_round (js_mul s 100) \<le> math_round (js_mul t 100)"
    unfolding js_mul_def by (rule math_round_mono)
  have "0 \<le> fl (s * 100)"
    using assms(1) by (intro fl_nonneg) simp
  then have "0 \<le> math_round (js_mul s 100)"
    unfolding js_mul_def by (rule math_round_nonneg)
  with le show ?thesis
    unfolding round2_def js_div_def by (intro fl_mono) (simp_all add: divide_right_mono)
qed

lemma round2_default: "round2 (fl (15 / 100)) = fl (15 / 100)"
proof -
  have mul: "js_mul (fl (15 / 100)) 100 = 15"
    unfolding js_mul_def fl_scores
    by (subst fl_eval [of "- 49"]) (simp_all add: pow2_def round_even_def)
  have "math_round 15 = 15"
    by (simp add: math_round_def)
  then show ?thesis
    unfolding round2_def mul js_div_def by simp
qed

lemma round2_example: "round2 (fl (154 / 1000)) = fl (15 / 100)"
proof -
  have mul: "js_mul (fl (154 / 1000)) 100 = 8669429282688205 / 2 ^ 49"
    unfolding js_mul_def fl_scores
    by (subst fl_eval [of "- 49"]) (simp_all add: pow2_def round_even_def)
  have "math_round (8669429282688205 / 2 ^ 49) = 15"
    by (simp add: math_round_def)
  then show ?thesis
    unfolding round2_def mul js_div_def by simp
qed

lemma set_slice: "set (slice a b xs) \<subseteq> set xs"
  unfolding slice_def by (meson set_take_subset set_drop_subset subset_trans)

lemma ranked_results_score:
  assumes "r \<in> set (ranked_results finalScore store q opts)"
  shows "opt_minScore opts \<le> res_score r"
  using assms by (simp add: ranked_results_def)

text \<open>Dropping the hits below the cutoff before or after ranking gives the same sequence.\<close>

lemma filter_rank: "filter P (rank rs) = rank (filter P rs)"
  by (simp add: rank_def filter_sort)

text \<open>
  C1, as the code has it. The effective cutoff is \<^verbatim>\<open>minScore || 0.15\<close>, which is at
  least any \<open>t\<close> passed as \<^verbatim>\<open>minScore\<close>. Every entry of a search response comes from a
  hit of the ranked, filtered sequence whose score is at least the effective cutoff.
  The score reported with it is \<^verbatim>\<open>Math.round(score * 100) / 100\<close>: it is at least the
  effective cutoff rounded in the same way, and at least the cutoff itself when the
  cutoff is the default \<open>0.15\<close>; it may be below a cutoff with more than two decimals.
\<close>

theorem search_memories_min_score:
  assumes schema: "minScore_schema (sa_minScore args)"
    and resp: "response_memories (search_memories (searchMemories finalScore store) args) = Some ms"
    and m: "m \<in> set ms"
  shows "\<exists>r \<in> set (ranked_results finalScore store (sa_query args) (search_options_of args)).
           m = report_memory r
         \<and> or_num (sa_minScore args) (fl (15 / 100)) \<le> res_score r
         \<and> rm_score m = round2 (res_score r)
         \<and> round2 (or_num (sa_minScore args) (fl (15 / 100))) \<le> rm_score m
         \<and> (or_num (sa_minScore args) (fl (15 / 100)) = fl (15 / 100)
               \<longrightarrow> fl (15 / 100) \<le> rm_score m)
         \<and> (\<forall>t. sa_minScore args = Some t
               \<longrightarrow> t \<le> or_num (sa_minScore args) (fl (15 / 100)))"
proof -
  let ?te = "or_num (sa_minScore args) (fl (15 / 100))"
  let ?ranked = "ranked_results finalScore store (sa_query args) (search_options_of args)"
  have default: "0 < fl (15 / 100)"
    unfolding fl_scores by simp
  have given: "t \<le> ?te" if "sa_minScore args = Some t" for t
    using that schema default by (simp add: or_num_def minScore_schema_def)
  have nonneg: "0 \<le> ?te"
    using schema default
    by (cases "sa_minScore args") (simp_all add: or_num_def minScore_schema_def)
  obtain allResults where call:
    "searchMemories finalScore store (sa_query args) (search_options_of args) = Inr allResults"
    using resp
    by (cases "searchMemories finalScore store (sa_query args) (search_options_of args)")
      (auto simp: search_memories_def response_memories_def split: js_error.splits)
  have ms: "ms = map report_memory (paginatedResults args allResults)"
    using resp by (simp add: search_memories_def call response_memories_def Let_def)
  have "allResults = take (opt_limit (search_options_of args)) ?ranked"
    using call by (simp add: searchMemories_def split: if_splits)
  then have "set allResults \<subseteq> set ?ranked"
    by (simp add: set_take_subset)
  then have sub: "set (paginatedResults args allResults) \<subseteq> set ?ranked"
    unfolding paginatedResults_def using set_slice by fastforce
  from m ms obtain r where r: "r \<in> set (paginatedResults args allResults)" "m = report_memory r"
    by auto
  with sub have rr: "r \<in> set ?ranked" by blast
  have te: "?te \<le> res_score r"
    using ranked_results_score [OF rr] by (simp add: search_options_of_def)
  have score: "rm_score m = round2 (res_score r)"
    using r(2) by (simp add: report_memory_def)
  have mono: "round2 ?te \<le> rm_score m"
    unfolding score using nonneg te by (rule round2_mono)
  have "fl (15 / 100) \<le> rm_score m" if "?te = fl (15 / 100)"
    using mono unfolding that round2_default .
  with rr r(2) te score mono given show ?thesis
    by blast
qed

text \<open>
  C1 as the specification states it fails: with \<^verbatim>\<open>minScore = 0.153\<close> a hit of score
  \<open>0.154\<close> passes the cutoff and is reported with score \<open>0.15\<close>, which is below
  \<open>0.153\<close>.
\<close>

theorem search_memories_min_score_counterexample:
  "response_memories (search_memories (searchMemories example_score example_store)
       (example_args\<lparr>sa_page := Some 2, sa_limit := Some 2\<rparr>))
     = Some [ \<lparr> rm_id = ''a'', rm_content = ''JavaScript is a programming language'',
                rm_tags = [''javascript'', ''programming''], rm_importance = 5,
                rm_score = fl (15 / 100), rm_context = None, rm_source = ''explicit'' \<rparr> ]
   \<and> sa_minScore (example_args\<lparr>sa_page := Some 2, sa_limit := Some 2\<rparr>) = Some (fl (153 / 1000))
   \<and> minScore_schema (Some (fl (153 / 1000)))
   \<and> fl (15 / 100) < fl (153 / 1000)"
proof -
  have opts: "search_options_of (example_args\<lparr>sa_page := Some 2, sa_limit := Some 2\<rparr>)
                = (search_options_of example_args)\<lparr>opt_limit := 6\<rparr>"
    by (simp add: search_options_of_def example_args_def offset_def pageSize_def
        currentPage_def or_nat_def)
  have call: "searchMemories example_score example_store ''programming''
                ((search_options_of example_args)\<lparr>opt_limit := 6\<rparr>)
              = Inr (map (to_result example_score ''programming'')
                  [example_store ! 2, example_store ! 1, example_store ! 0])"
    by (simp add: searchMemories_limit example_ranked)
  have q: "sa_query (example_args\<lparr>sa_page := Some 2, sa_limit := Some 2\<rparr>) = ''programming''"
    by (simp add: example_args_def)
  have page: "response_memories (search_memories (searchMemories example_score example_store)
       (example_args\<lparr>sa_page := Some 2, sa_limit := Some 2\<rparr>))
     = Some [report_memory (to_result example_score ''programming'' (example_store ! 0))]"
    unfolding search_memories_def q opts call
    by (simp add: response_memories_def paginatedResults_def slice_def offset_def pageSize_def
        currentPage_def or_nat_def Let_def)
  have "example_score ''programming'' (example_store ! 0) = fl (154 / 1000)"
    unfolding example_score_def by (simp add: example_store_def)
  then have "round2 (res_score (to_result example_score ''programming'' (example_store ! 0)))
               = fl (15 / 100)"
    unfolding to_result_def by (simp only: MemoryResult.simps round2_example)
  then have entry: "report_memory (to_result example_score ''programming'' (example_store ! 0))
     = \<lparr> rm_id = ''a'', rm_content = ''JavaScript is a programming language'',
                rm_tags = [''javascript'', ''programming''], rm_importance = 5,
                rm_score = fl (15 / 100), rm_context = None, rm_source = ''explicit'' \<rparr>"
    unfolding report_memory_def by (simp add: to_result_def example_store_def)
  have cutoff: "sa_minScore (example_args\<lparr>sa_page := Some 2, sa_limit := Some 2\<rparr>)
                  = Some (fl (153 / 1000))"
    unfolding example_args_def by simp
  have "0 \<le> fl (153 / 1000)" and "fl (153 / 1000) \<le> 1"
    unfolding fl_scores by simp_all
  with double_scores(1) have schema: "minScore_schema (Some (fl (153 / 1000)))"
    unfolding minScore_schema_def by simp
  have below: "fl (15 / 100) < fl (153 / 1000)"
    unfolding fl_scores by simp
  from page entry cutoff schema below show ?thesis
    by (simp only: simp_thms)
qed

text \<open>C1 on the example store with the cutoff \<open>0.3\<close>.\<close>

theorem search_memories_min_score_witness:
  "\<exists>r \<in> set (ranked_results example_score example_store ''programming''
             (search_options_of (example_args\<lparr>sa_minScore := Some (fl (3 / 10))\<rparr>))).
      report_memory (to_result example_score ''programming'' (example_store ! 1)) = report_memory r
      \<and> fl (3 / 10) \<le> res_score r
      \<and> round2 (fl (3 / 10))
           \<le> rm_score (report_memory (to_result example_score ''programming'' (example_store ! 1)))"
proof -
  let ?args = "example_args\<lparr>sa_minScore := Some (fl (3 / 10))\<rparr>"
  have ranked: "ranked_results example_score example_store ''programming'' (search_options_of ?args)
     = map (to_result example_score ''programming'') [example_store ! 2, example_store ! 1]"
    unfolding search_options_of_def example_args_def fl_scores fl_three_tenths
    by (simp add: ranked_results_def rank_def example_store_def example_score_values
      matches_def to_result_def or_num_def)
  have opts: "search_options_of ?args = (search_options_of ?args)\<lparr>opt_limit := 20\<rparr>"
    by (simp add: search_options_of_def example_args_def offset_def pageSize_def
        currentPage_def or_nat_def)
  have q: "sa_query ?args = ''programming''"
    by (simp add: example_args_def)
  have call: "searchMemories example_score example_store (sa_query ?args) (search_options_of ?args)
              = Inr (map (to_result example_score ''programming'') [example_store ! 2, example_store ! 1])"
    unfolding q by (subst opts) (simp add: searchMemories_limit ranked)
  have resp: "response_memories (search_memories (searchMemories example_score example_store) ?args)
     = Some (map (report_memory \<circ> to_result example_score ''programming'')
         [example_store ! 2, example_store ! 1])"
    unfolding search_memories_def call
    by (simp add: response_memories_def paginatedResults_def slice_def offset_def pageSize_def
        currentPage_def or_nat_def example_args_def Let_def)
  have pos: "0 < fl (3 / 10)" "fl (3 / 10) \<le> 1"
    unfolding fl_three_tenths by simp_all
  then have te: "or_num (sa_minScore ?args) (fl (15 / 100)) = fl (3 / 10)"
    by (simp add: or_num_def)
  have schema: "minScore_schema (sa_minScore ?args)"
    using double_scores(2) pos by (simp add: minScore_schema_def)
  have m: "report_memory (to_result example_score ''programming'' (example_store ! 1))
             \<in> set (map (report_memory \<circ> to_result example_score ''programming'')
                 [example_store ! 2, example_store ! 1])"
    by simp
  from search_memories_min_score [OF schema resp m, unfolded te q]
  show ?thesis by blast
qed

section \<open>Deleting an absent memory\<close>

lemma deleteMemory_absent:
  assumes "\<not> list_ex (\<lambda>m. m_id m = mid) store"
  shows "deleteMemory mid store = (Inr False, store)"
  using assms by (simp add: deleteMemory_def)

lemma deleteMemory_removes: "\<not> list_ex (\<lambda>m. m_id m = mid) (snd (deleteMemory mid store))"
  by (simp add: deleteMemory_def list_ex_iff)

text \<open>
  C9, as the code has it. When \<^verbatim>\<open>deleteMemory\<close> returns false without throwing, as it
  does for an absent id, the \<^verbatim>\<open>delete_memory\<close> handler does not throw either, but it
  reports the outcome to its caller as an error: \<^verbatim>\<open>success: false\<close>, the message
  \<^verbatim>\<open>Memory <id> not found or could not be deleted\<close> and \<^verbatim>\<open>isError: true\<close>. With the
  store of the spec, deleting an absent id returns false and leaves the store as it is,
  and after any delete the id is absent, so a repeated delete gets this same response.
\<close>

theorem delete_memory_absent_reported:
  "(del mid s = (Inr False, s') \<longrightarrow>
      delete_memory del mid s
        = (\<lparr> payload = DeleteNotDone (''Memory '' @ mid @ '' not found or could not be deleted''),
             isError = True \<rparr>, s'))
   \<and> (\<not> list_ex (\<lambda>m. m_id m = mid) store \<longrightarrow>
        deleteMemory mid store = (Inr False, store)
        \<and> delete_memory deleteMemory mid store
            = (\<lparr> payload = DeleteNotDone (''Memory '' @ mid @ '' not found or could not be deleted''),
                 isError = True \<rparr>, store))
   \<and> delete_memory deleteMemory mid (snd (delete_memory deleteMemory mid store))
        = (\<lparr> payload = DeleteNotDone (''Memory '' @ mid @ '' not found or could not be deleted''),
             isError = True \<rparr>, snd (delete_memory deleteMemory mid store))"
proof -
  have handler: "delete_memory d mid t
        = (\<lparr> payload = DeleteNotDone (''Memory '' @ mid @ '' not found or could not be deleted''),
             isError = True \<rparr>, t')"
    if "d mid t = (Inr False, t')" for d :: "string \<Rightarrow> 't \<Rightarrow> (js_error + bool) \<times> 't" and t t'
    using that by (simp add: delete_memory_def)
  have absent: "delete_memory deleteMemory mid t
        = (\<lparr> payload = DeleteNotDone (''Memory '' @ mid @ '' not found or could not be deleted''),
             isError = True \<rparr>, t)"
    if "\<not> list_ex (\<lambda>m. m_id m = mid) t" for t
    by (rule handler) (rule deleteMemory_absent [OF that])
  have "snd (delete_memory deleteMemory mid store) = snd (deleteMemory mid store)"
    by (cases "deleteMemory mid store")
      (auto simp: delete_memory_def deleteMemory_def split: if_splits)
  then have "\<not> list_ex (\<lambda>m. m_id m = mid) (snd (delete_memory deleteMemory mid store))"
    by (simp add: deleteMemory_removes)
  from absent [OF this] handler [of del s s'] absent [of store] deleteMemory_absent [of mid store]
  show ?thesis by blast
qed

text \<open>C9 on the example store: the id \<^verbatim>\<open>zz\<close> is absent from it.\<close>

theorem delete_memory_absent_reported_witness:
  "deleteMemory ''zz'' example_store = (Inr False, example_store)
   \<and> delete_memory deleteMemory ''zz'' example_store
        = (\<lparr> payload = DeleteNotDone ''Memory zz not found or could not be deleted'',
             isError = True \<rparr>, example_store)"
proof -
  have absent: "\<not> list_ex (\<lambda>m. m_id m = ''zz'') example_store"
    by (simp add: example_store_def)
  from delete_memory_absent_reported [of deleteMemory "''zz''" example_store example_store example_store]
    absent
  show ?thesis by simp
qed

text \<open>
  C9 as the specification states it fails: deleting an id that is absent from the empty store
  is surfaced to the caller with \<^verbatim>\<open>isError: true\<close>.
\<close>

theorem delete_memory_absent_counterexample:
  "deleteMemory ''zz'' [] = (Inr False, [])
   \<and> isError (fst (delete_memory deleteMemory ''zz'' [])) = True"
  by (simp add: delete_memory_def deleteMemory_def)

section \<open>Entity extraction never raises\<close>

lemma has_fence_sublist: "has_fence s \<longleftrightarrow> sublist ''```'' s"
  by (induction s) (simp_all add: sublist_Cons_right)

lemma sublist_trim: "sublist (trim s) s"
proof -
  have "sublist (rev (dropWhile is_space (rev (dropWhile is_space s)))) (dropWhile is_space s)"
    by (simp add: sublist_rev_left)
  moreover have "sublist (dropWhile is_space s) s"
    by simp
  ultimately show ?thesis
    unfolding trim_def by (rule sublist_order.order.trans)
qed

lemma has_fence_trim:
  assumes "has_fence (trim s)"
  shows "has_fence s"
  using assms sublist_trim [of s] unfolding has_fence_sublist
  by (rule sublist_order.order.trans)

lemma prefix_fence_iff: "prefix ''```'' s \<longleftrightarrow> (\<exists>r. s = CHR ''`'' # CHR ''`'' # CHR ''`'' # r)"
  by (auto simp: prefix_def)

lemma remove_fences_backtick:
  assumes "remove_fences ''```'' s = CHR ''`'' # r"
  shows "\<exists>t. s = CHR ''`'' # t"
proof (cases s)
  case Nil
  with assms show ?thesis by simp
next
  case (Cons c cs)
  show ?thesis
  proof (cases "prefix ''```'' (c # cs)")
    case True
    then show ?thesis using Cons unfolding prefix_fence_iff by auto
  next
    case False
    then have "remove_fences ''```'' (c # cs) = c # remove_fences ''```'' cs"
      by (subst remove_fences.simps(2)) (simp only: if_False simp_thms)
    with assms Cons show ?thesis by simp
  qed
qed

lemma remove_fences_no_fence:
  assumes "pat = ''```''"
  shows "\<not> has_fence (remove_fences pat s)"
  using assms
proof (induction pat s rule: remove_fences.induct)
  case (1 pat)
  then show ?case by simp
next
  case (2 pat c cs)
  have pat: "pat \<noteq> []"
    using "2.prems" by simp
  show ?case
  proof (cases "prefix pat (c # cs)")
    case True
    with pat have cond: "pat \<noteq> [] \<and> prefix pat (c # cs)" by (rule conjI)
    then have "remove_fences pat (c # cs)
                 = remove_fences pat (drop_newline (drop (length pat) (c # cs)))"
      by (subst remove_fences.simps(2)) (simp only: if_True simp_thms)
    with "2.IH"(1) [OF cond "2.prems"] show ?thesis by (simp only: simp_thms)
  next
    case False
    then have ncond: "\<not> (pat \<noteq> [] \<and> prefix pat (c # cs))" by (simp only: simp_thms)
    then have eq: "remove_fences pat (c # cs) = c # remove_fences pat cs"
      by (subst remove_fences.simps(2)) (simp only: if_False)
    have tail: "\<not> has_fence (remove_fences pat cs)"
      by (rule "2.IH"(2) [OF ncond "2.prems"])
    have "\<not> prefix ''```'' (c # remove_fences pat cs)"
    proof
      assume "prefix ''```'' (c # remove_fences pat cs)"
      then obtain r where c: "c = CHR ''`''"
        and r: "remove_fences pat cs = CHR ''`'' # CHR ''`'' # r"
        unfolding prefix_fence_iff by auto
      from r obtain cs' where cs: "cs = CHR ''`'' # cs'"
        using remove_fences_backtick "2.prems" by blast
      have nofence: "\<not> prefix ''```'' (CHR ''`'' # cs')"
        using False c cs unfolding "2.prems" prefix_fence_iff by auto
      then have "remove_fences ''```'' (CHR ''`'' # cs') = CHR ''`'' # remove_fences ''```'' cs'"
        by (subst remove_fences.simps(2)) (simp only: if_False simp_thms)
      with r have "remove_fences ''```'' cs' = CHR ''`'' # r"
        unfolding cs "2.prems" by simp
      then obtain cs'' where "cs' = CHR ''`'' # cs''"
        using remove_fences_backtick by blast
      with c cs have "prefix ''```'' (c # cs)"
        unfolding prefix_fence_iff by simp
      moreover have "\<not> prefix ''```'' (c # cs)"
        using False unfolding "2.prems" .
      ultimately show False by blast
    qed
    with tail show ?thesis
      unfolding eq by simp
  qed
qed

lemma clean_response_no_fence: "\<not> has_fence (clean_response text)"
  unfolding clean_response_def
  using has_fence_trim remove_fences_no_fence by blast

lemma remove_fences_plain:
  assumes "CHR ''`'' \<notin> set body" and "hd pat = CHR ''`''"
  shows "remove_fences pat (body @ rest) = body @ remove_fences pat rest"
  using assms
proof (induction body)
  case Nil
  then show ?case by simp
next
  case (Cons b body)
  have "\<not> (pat \<noteq> [] \<and> prefix pat (b # body @ rest))"
  proof
    assume "pat \<noteq> [] \<and> prefix pat (b # body @ rest)"
    then obtain p ps where "pat = p # ps" "p = b"
      by (cases pat) auto
    with Cons.prems show False by simp
  qed
  then have "remove_fences pat ((b # body) @ rest) = b # remove_fences pat (body @ rest)"
    unfolding append_Cons by (subst remove_fences.simps(2)) (simp only: if_False)
  with Cons show ?case by simp
qed

lemma trim_unfenced:
  assumes "body \<noteq> []" "\<not> is_space (hd body)" "\<not> is_space (last body)"
  shows "trim (body @ [newline]) = body"
proof -
  have front: "dropWhile is_space (body @ [newline]) = body @ [newline]"
    using assms(1,2) by (cases body) simp_all
  have "rev body \<noteq> []" and "\<not> is_space (hd (rev body))"
    using assms(1,3) by (simp_all add: hd_rev)
  then have rear: "dropWhile is_space (rev body) = rev body"
    by (cases "rev body") simp_all
  have "is_space newline"
    by (simp add: is_space_def newline_def)
  then show ?thesis
    by (simp add: trim_def front rear)
qed

lemma trim_fenced:
  "trim (''```json'' @ [newline] @ body @ [newline] @ ''```'')
     = ''```json'' @ [newline] @ body @ [newline] @ ''```''"
  by (simp add: trim_def is_space_def)

lemma clean_response_fenced:
  assumes "body \<noteq> []" "\<not> is_space (hd body)" "\<not> is_space (last body)"
    and "CHR ''`'' \<notin> set body"
  shows "clean_response (''```json'' @ [newline] @ body @ [newline] @ ''```'') = body"
proof -
  have nl: "newline \<noteq> CHR ''`''"
    by (simp add: newline_def)
  have first: "remove_fences ''```json'' (''```json'' @ [newline] @ body @ [newline] @ ''```'')
                 = remove_fences ''```json'' (body @ [newline] @ ''```'')"
    by (simp add: drop_newline_def)
  have "remove_fences ''```json'' ([newline] @ ''```'') = [newline] @ ''```''"
    using nl by simp
  with remove_fences_plain [OF assms(4), of "''```json''" "[newline] @ ''```''"]
  have second: "remove_fences ''```json'' (body @ [newline] @ ''```'') = body @ [newline] @ ''```''"
    by simp
  have "remove_fences ''```'' ([newline] @ ''```'') = [newline]"
    using nl by (simp add: drop_newline_def)
  with remove_fences_plain [OF assms(4), of "''```''" "[newline] @ ''```''"]
  have third: "remove_fences ''```'' (body @ [newline] @ ''```'') = body @ [newline]"
    by simp
  show ?thesis
    unfolding clean_response_def trim_fenced first second third
    by (rule trim_unfenced) (rule assms)+
qed

text \<open>
  C8. \<^verbatim>\<open>extractKnowledge\<close> never raises: it returns a result for every model and
  every input text. When the model call throws, when the parser throws, or when the
  parsed value is \<^verbatim>\<open>null\<close>, the result is the empty one. The text handed to the parser
  holds no markdown code fence, whatever the model wrote; and a body without backticks
  that is wrapped as \<^verbatim>\<open>```json\<close>, newline, body, newline, \<^verbatim>\<open>```\<close> is handed to the parser
  as the body alone.
\<close>

theorem extractKnowledge_never_raises:
  "(\<exists>result. extractKnowledge m content = Inr result)
   \<and> (\<forall>e. generateText m (prompt content) = Inl e
          \<longrightarrow> extractKnowledge m content = Inr empty_extraction)
   \<and> (\<forall>text e. generateText m (prompt content) = Inr text
          \<and> json_parse m (clean_response text) = Inl e
          \<longrightarrow> extractKnowledge m content = Inr empty_extraction)
   \<and> (\<forall>text. generateText m (prompt content) = Inr text
          \<and> json_parse m (clean_response text) = Inr ParsedNull
          \<longrightarrow> extractKnowledge m content = Inr empty_extraction)
   \<and> (\<forall>text es rs. generateText m (prompt content) = Inr text
          \<and> json_parse m (clean_response text) = Inr (ParsedValue es rs)
          \<longrightarrow> extractKnowledge m content
                = Inr \<lparr> entities = or_array es, relationships = or_array rs \<rparr>)
   \<and> (\<forall>text. \<not> has_fence (clean_response text))
   \<and> (\<forall>body. body \<noteq> [] \<and> \<not> is_space (hd body) \<and> \<not> is_space (last body)
          \<and> CHR ''`'' \<notin> set body
          \<longrightarrow> clean_response (''```json'' @ [newline] @ body @ [newline] @ ''```'') = body)"
proof -
  have total: "\<exists>result. extractKnowledge m content = Inr result"
    by (cases "extract_try m content") (simp_all add: extractKnowledge_def)
  have provider: "extractKnowledge m content = Inr empty_extraction"
    if "generateText m (prompt content) = Inl e" for e
    using that by (simp add: extractKnowledge_def extract_try_def)
  have parse: "extractKnowledge m content = Inr empty_extraction"
    if "generateText m (prompt content) = Inr reply \<and> json_parse m (clean_response reply) = Inl e"
    for reply e
    using that by (simp add: extractKnowledge_def extract_try_def)
  have null: "extractKnowledge m content = Inr empty_extraction"
    if "generateText m (prompt content) = Inr reply
        \<and> json_parse m (clean_response reply) = Inr ParsedNull"
    for reply
    using that by (simp add: extractKnowledge_def extract_try_def)
  have good: "extractKnowledge m content = Inr \<lparr> entities = or_array es, relationships = or_array rs \<rparr>"
    if "generateText m (prompt content) = Inr reply
        \<and> json_parse m (clean_response reply) = Inr (ParsedValue es rs)"
    for reply es rs
    using that by (simp add: extractKnowledge_def extract_try_def)
  show ?thesis
    using total provider parse null good clean_response_no_fence clean_response_fenced
    by blast
qed

lemma example_json_plain:
  "example_json \<noteq> []" "\<not> is_space (hd example_json)" "\<not> is_space (last example_json)"
  "CHR ''`'' \<notin> set example_json"
  by (simp_all add: example_json_def quoted_def dquote_def is_space_def)

lemma example_llm_extracts: "extractKnowledge example_llm content = Inr example_extraction"
proof -
  have "clean_response (''```json'' @ [newline] @ example_json @ [newline] @ ''```'') = example_json"
    by (rule clean_response_fenced [OF example_json_plain])
  then show ?thesis
    by (simp add: extractKnowledge_def extract_try_def example_llm_def example_extraction_def
        or_array_def)
qed

text \<open>
  C8 on the example model, which wraps its JSON in a code fence: the parser receives
  the JSON alone and the entity is extracted; a model that is unavailable gives the
  empty result.
\<close>

theorem extractKnowledge_never_raises_witness:
  "extractKnowledge example_llm ''Ada proves theorems'' = Inr example_extraction
   \<and> extractKnowledge (example_llm\<lparr>generateText := (\<lambda>p. Inl (JsError ''unavailable''))\<rparr>)
        ''Ada proves theorems'' = Inr empty_extraction
   \<and> \<not> has_fence (clean_response (''```json'' @ [newline] @ example_json @ [newline] @ ''```''))"
proof -
  have "generateText (example_llm\<lparr>generateText := (\<lambda>p. Inl (JsError ''unavailable''))\<rparr>)
          (prompt ''Ada proves theorems'') = Inl (JsError ''unavailable'')"
    by simp
  with extractKnowledge_never_raises
    [of "example_llm\<lparr>generateText := (\<lambda>p. Inl (JsError ''unavailable''))\<rparr>" "''Ada proves theorems''"]
  have unavailable: "extractKnowledge (example_llm\<lparr>generateText := (\<lambda>p. Inl (JsError ''unavailable''))\<rparr>)
        ''Ada proves theorems'' = Inr empty_extraction"
    by blast
  from extractKnowledge_never_raises [of example_llm "''Ada proves theorems''"]
  have "\<not> has_fence (clean_response (''```json'' @ [newline] @ example_json @ [newline] @ ''```''))"
    by blast
  with unavailable example_llm_extracts show ?thesis by simp
qed

section \<open>The sync loop isolates failures\<close>


lemma extraction_of_eq: "extractKnowledge m content = Inr (extraction_of m content)"
  by (cases "extract_try m content") (simp_all add: extraction_of_def extractKnowledge_def)


lemma process_memory_unfold:
  "process_memory kg m now memory g =
     (case addNode kg (memoryNode_of now memory) g of
        (Some e, g1) \<Rightarrow> (Some e, g1)
      | (None, g1) \<Rightarrow>
          (case entities (extraction_of m (res_text memory)) of
             NotIterable \<Rightarrow> (Some not_iterable, g1)
           | Items es \<Rightarrow>
               (case add_entities kg (memoryNode_of now memory) es g1 of
                  (Some e, g2) \<Rightarrow> (Some e, g2)
                | (None, g2) \<Rightarrow>
                    (case relationships (extraction_of m (res_text memory)) of
                       NotIterable \<Rightarrow> (Some not_iterable, g2)
                     | Items rs \<Rightarrow> add_relationships kg rs g2))))"
  unfolding process_memory_def extraction_of_eq by simp



lemma example_llm_extraction: "extraction_of example_llm content = example_extraction"
  by (simp add: extraction_of_def example_llm_extracts)

lemma example_select:
  "select_memories (example_sync kg) options = Inr example_memories"
  by (simp add: select_memories_def example_sync_def example_memories_def)

lemma example_sync_fields:
  "kgService (example_sync kg) = kg"
  "llmService (example_sync kg) = example_llm"
  "date_now (example_sync kg) = (\<lambda>i. 1000 + i)"
  by (simp_all add: example_sync_def)




text \<open>
  A reply whose \<^verbatim>\<open>entities\<close> are a number is not an extractor failure: the loop over
  them throws, after the memory node is upserted, and the memory is counted in
  \<^verbatim>\<open>errors\<close>.
\<close>

lemma untyped_llm_extraction:
  "extraction_of untyped_llm content = \<lparr> entities = NotIterable, relationships = Items [] \<rparr>"
  by (simp add: extraction_of_def extractKnowledge_def extract_try_def untyped_llm_def
      example_llm_def or_array_def)

lemma untyped_reply_counted_as_error:
  "fst (syncKnowledgeGraph ((example_sync merge_kg)\<lparr>llmService := untyped_llm\<rparr>)
         \<lparr> forceFullResync = None \<rparr> empty_graph)
     = Inr \<lparr> processed = 0, errors = 2, skipped = 0 \<rparr>"
proof -
  let ?svc = "(example_sync merge_kg)\<lparr>llmService := untyped_llm\<rparr>"
  have sel: "select_memories ?svc \<lparr> forceFullResync = None \<rparr> = Inr example_memories"
    by (simp add: select_memories_def example_sync_def example_memories_def)
  have step: "process_memory merge_kg untyped_llm now memory g
                = (Some not_iterable, merge_node (memoryNode_of now memory) g)" for now memory g
    unfolding process_memory_unfold untyped_llm_extraction
    by (simp add: merge_kg_def)
  have fields: "kgService ?svc = merge_kg" "llmService ?svc = untyped_llm"
    by (simp_all add: example_sync_def)
  have mems: "example_memories = [example_memories ! 0, example_memories ! 1]"
    by (simp add: example_memories_def)
  have "fst (sync_loop ?svc 0 example_memories empty_graph \<lparr> processed = 0, errors = 0, skipped = 0 \<rparr>)
          = \<lparr> processed = 0, errors = 2, skipped = 0 \<rparr>"
    by (subst mems) (simp add: fields step)
  then show ?thesis
    unfolding syncKnowledgeGraph_def sel by (simp add: split_beta)
qed

section \<open>The sync run: candidates, issued upserts and idempotence\<close>

lemma add_entities_total:
  assumes an: "\<And>n g. addNode kg n g = (None, an n g)"
    and ar: "\<And>r g. addRelationship kg r g = (None, ar r g)"
  shows "add_entities kg memoryNode es g
           = (None, foldl (apply_op an ar) g (concat (map (entity_ops memoryNode) es)))"
  by (induction es arbitrary: g) (simp_all add: an ar entity_ops_def)

lemma add_relationships_total:
  assumes ar: "\<And>r g. addRelationship kg r g = (None, ar r g)"
  shows "add_relationships kg rs g
           = (None, foldl (apply_op an ar) g (map (\<lambda>rel. AddRelationship (relationship_of rel)) rs))"
  by (induction rs arbitrary: g) (simp_all add: ar)

lemma process_memory_total:
  assumes an: "\<And>n g. addNode kg n g = (None, an n g)"
    and ar: "\<And>r g. addRelationship kg r g = (None, ar r g)"
  shows "process_memory kg m now memory g
           = (memory_outcome (extraction_of m (res_text memory)),
              foldl (apply_op an ar) g (memory_ops now memory (extraction_of m (res_text memory))))"
proof (cases "entities (extraction_of m (res_text memory))")
  case NotIterable
  then show ?thesis
    by (simp add: process_memory_unfold an memory_ops_def memory_outcome_def)
next
  case (Items es)
  show ?thesis
  proof (cases "relationships (extraction_of m (res_text memory))")
    case NotIterable
    with Items show ?thesis
      by (simp add: process_memory_unfold an memory_ops_def memory_outcome_def items_def
          add_entities_total [of kg an ar, OF an ar])
  next
    case (Items rs)
    with \<open>entities (extraction_of m (res_text memory)) = Items es\<close> show ?thesis
      by (simp add: process_memory_unfold an memory_ops_def memory_outcome_def items_def
          add_entities_total [of kg an ar, OF an ar]
          add_relationships_total [where an = an, OF ar])
  qed
qed

lemma sync_loop_graph:
  assumes an: "\<And>n g. addNode (kgService svc) n g = (None, an n g)"
    and ar: "\<And>r g. addRelationship (kgService svc) r g = (None, ar r g)"
  shows "snd (sync_loop svc i memories g result)
           = foldl (apply_op an ar) g (sync_ops (llmService svc) (date_now svc) i memories)"
proof (induction memories arbitrary: i g result)
  case Nil
  then show ?case by simp
next
  case (Cons memory rest)
  show ?case
    by (cases "memory_outcome (extraction_of (llmService svc) (res_text memory))")
      (simp_all add: process_memory_total [of "kgService svc" an ar, OF an ar] Cons.IH)
qed

lemma syncKnowledgeGraph_graph:
  assumes sel: "select_memories svc options = Inr memories"
    and an: "\<And>n g. addNode (kgService svc) n g = (None, an n g)"
    and ar: "\<And>r g. addRelationship (kgService svc) r g = (None, ar r g)"
  shows "\<exists>result. syncKnowledgeGraph svc options g
           = (Inr result,
              foldl (apply_op an ar) g (sync_ops (llmService svc) (date_now svc) 0 memories))"
proof -
  obtain result g' where
    run: "sync_loop svc 0 memories g \<lparr> processed = 0, errors = 0, skipped = 0 \<rparr> = (result, g')"
    by (cases "sync_loop svc 0 memories g \<lparr> processed = 0, errors = 0, skipped = 0 \<rparr>")
  have "snd (sync_loop svc 0 memories g \<lparr> processed = 0, errors = 0, skipped = 0 \<rparr>)
          = foldl (apply_op an ar) g (sync_ops (llmService svc) (date_now svc) 0 memories)"
    by (rule sync_loop_graph [OF an ar])
  then have "g' = foldl (apply_op an ar) g (sync_ops (llmService svc) (date_now svc) 0 memories)"
    unfolding run by simp
  with run show ?thesis
    by (simp add: syncKnowledgeGraph_def sel)
qed

lemma foldl_log: "foldl (apply_op (\<lambda>n g. g @ [AddNode n]) (\<lambda>r g. g @ [AddRelationship r])) g ops = g @ ops"
proof (induction ops arbitrary: g)
  case Nil
  then show ?case by simp
next
  case (Cons op ops)
  then show ?case by (cases op) simp_all
qed

lemma process_memory_log:
  "process_memory log_kg m now memory g
     = (memory_outcome (extraction_of m (res_text memory)),
        g @ memory_ops now memory (extraction_of m (res_text memory)))"
proof -
  have "process_memory log_kg m now memory g
     = (memory_outcome (extraction_of m (res_text memory)),
        foldl (apply_op (\<lambda>n g. g @ [AddNode n]) (\<lambda>r g. g @ [AddRelationship r])) g
         (memory_ops now memory (extraction_of m (res_text memory))))"
    by (rule process_memory_total) (simp_all add: log_kg_def)
  then show ?thesis
    by (simp add: foldl_log)
qed

lemma foldl_merge_keys:
  "graph_keys (foldl (apply_op merge_node merge_relationship) g ops)
     = graph_keys g \<union> op_key ` set ops"
proof (induction ops arbitrary: g)
  case Nil
  then show ?case by simp
next
  case (Cons op ops)
  show ?case
  proof (cases op)
    case (AddNode n)
    have "graph_keys (merge_node n g) = insert (NodeKey (node_id n)) (graph_keys g)"
      by (auto simp: graph_keys_def merge_node_def)
    with AddNode show ?thesis by (simp add: Cons.IH)
  next
    case (AddRelationship r)
    have "graph_keys (merge_relationship r g) = insert (RelKey (rel_id r)) (graph_keys g)"
      by (auto simp: graph_keys_def merge_relationship_def)
    with AddRelationship show ?thesis by (simp add: Cons.IH)
  qed
qed

lemma select_with_kg: "select_memories (with_kg kg svc) options = select_memories svc options"
  by (cases "memoryStore_initialize svc") (simp_all add: select_memories_def with_kg_def)

lemma syncKnowledgeGraph_log:
  assumes "select_memories svc options = Inr memories"
  shows "snd (syncKnowledgeGraph (with_kg log_kg svc) options g)
           = g @ sync_ops (llmService svc) (date_now svc) 0 memories"
proof -
  have sel: "select_memories (with_kg log_kg svc) options = Inr memories"
    using assms by (simp add: select_with_kg)
  have kg: "kgService (with_kg log_kg svc) = log_kg"
    "llmService (with_kg log_kg svc) = llmService svc"
    "date_now (with_kg log_kg svc) = date_now svc"
    by (simp_all add: with_kg_def)
  have "\<exists>result. syncKnowledgeGraph (with_kg log_kg svc) options g
           = (Inr result,
              foldl (apply_op (\<lambda>n g. g @ [AddNode n]) (\<lambda>r g. g @ [AddRelationship r])) g
                (sync_ops (llmService (with_kg log_kg svc)) (date_now (with_kg log_kg svc)) 0 memories))"
    by (rule syncKnowledgeGraph_graph [OF sel]) (simp_all add: with_kg_def log_kg_def)
  then show ?thesis
    by (auto simp: kg foldl_log)
qed

lemma syncKnowledgeGraph_merge:
  assumes "select_memories svc options = Inr memories" and "kgService svc = merge_kg"
  shows "\<exists>result g'. syncKnowledgeGraph svc options g = (Inr result, g')
             \<and> graph_keys g' = graph_keys g
                  \<union> op_key ` set (sync_ops (llmService svc) (date_now svc) 0 memories)"
proof -
  have "\<exists>result. syncKnowledgeGraph svc options g
           = (Inr result,
              foldl (apply_op merge_node merge_relationship) g
                (sync_ops (llmService svc) (date_now svc) 0 memories))"
    by (rule syncKnowledgeGraph_graph [OF assms(1)]) (simp_all add: assms(2) merge_kg_def)
  then show ?thesis
    by (auto simp: foldl_merge_keys)
qed

lemma example_outcome: "memory_outcome example_extraction = None"
  by (simp add: memory_outcome_def example_extraction_def)

lemma example_run:
  "fst (syncKnowledgeGraph (example_sync merge_kg) options g)
     = Inr \<lparr> processed = 2, errors = 0, skipped = 0 \<rparr>"
proof -
  have step: "process_memory merge_kg example_llm now memory g1
            = (None, foldl (apply_op merge_node merge_relationship) g1
                 (memory_ops now memory example_extraction))" for now memory g1
  proof -
    have "process_memory merge_kg example_llm now memory g1
            = (memory_outcome (extraction_of example_llm (res_text memory)),
               foldl (apply_op merge_node merge_relationship) g1
                 (memory_ops now memory (extraction_of example_llm (res_text memory))))"
      by (rule process_memory_total) (simp_all add: merge_kg_def)
    then show ?thesis
      by (simp add: example_llm_extraction example_outcome)
  qed
  have mems: "example_memories = [example_memories ! 0, example_memories ! 1]"
    by (simp add: example_memories_def)
  have loop: "fst (sync_loop (example_sync merge_kg) 0 [a, b] g
                    \<lparr> processed = 0, errors = 0, skipped = 0 \<rparr>)
          = \<lparr> processed = 2, errors = 0, skipped = 0 \<rparr>" for a b
    by (simp add: example_sync_fields step)
  show ?thesis
    unfolding syncKnowledgeGraph_def example_select
    by (subst mems) (simp add: loop split_beta del: sync_loop.simps)
qed

text \<open>
  C4 does not hold of the code. \<^verbatim>\<open>syncKnowledgeGraph\<close> never reads its options and
  consults no sync state: two runs that differ only in \<^verbatim>\<open>forceFullResync\<close> select the
  same candidates and do the same. On the example service a run without full resync
  processes both memories; a second such run, on the graph the first one left and with
  both memories already synced, selects and processes both again, and a full resync
  selects the same candidates.
\<close>

theorem sync_candidates_ignore_options:
  "select_memories svc options = select_memories svc options'
   \<and> syncKnowledgeGraph svc options g = syncKnowledgeGraph svc options' g
   \<and> fst (syncKnowledgeGraph (example_sync merge_kg) \<lparr> forceFullResync = Some False \<rparr> empty_graph)
     = Inr \<lparr> processed = 2, errors = 0, skipped = 0 \<rparr>
   \<and> select_memories (example_sync merge_kg) \<lparr> forceFullResync = Some False \<rparr> = Inr example_memories
   \<and> fst (syncKnowledgeGraph (example_sync merge_kg) \<lparr> forceFullResync = Some False \<rparr>
         (snd (syncKnowledgeGraph (example_sync merge_kg) \<lparr> forceFullResync = Some False \<rparr>
            empty_graph)))
     = Inr \<lparr> processed = 2, errors = 0, skipped = 0 \<rparr>
   \<and> select_memories (example_sync merge_kg) \<lparr> forceFullResync = Some True \<rparr> = Inr example_memories"
proof -
  have sel: "select_memories svc options = select_memories svc options'"
    by (simp add: select_memories_def)
  have run: "syncKnowledgeGraph svc options g = syncKnowledgeGraph svc options' g"
    by (simp add: syncKnowledgeGraph_def sel)
  from sel run show ?thesis
    by (simp add: example_run example_select)
qed

text \<open>
  C7, as the code has it. For a memory whose processing does not throw, the engine
  upserts the memory node, then for each extracted entity its node and a \<^verbatim>\<open>MENTIONS\<close>
  relationship from the memory node to it, then each extracted relationship, and
  nothing else. (The body ends with a TypeError, after the upserts issued so far, when
  the extraction's entities or relationships are not iterable.) The tags of the memory
  are not read: no \<^verbatim>\<open>Tag\<close> node and no \<^verbatim>\<open>HAS_TAG\<close> relationship is derived from them.
\<close>

theorem sync_upserts_mentions:
  "process_memory kg m now (memory\<lparr>res_tags := tags\<rparr>) g = process_memory kg m now memory g
   \<and> process_memory log_kg m now memory []
       = (memory_outcome (extraction_of m (res_text memory)),
          memory_ops now memory (extraction_of m (res_text memory)))
   \<and> (fst (process_memory log_kg m now memory []) = None
        \<longrightarrow> (\<exists>es rs. extraction_of m (res_text memory) = \<lparr> entities = Items es, relationships = Items rs \<rparr>
              \<and> snd (process_memory log_kg m now memory [])
                  = AddNode (memoryNode_of now memory)
                      # concat (map (\<lambda>entity. [AddNode (entityNode_of entity),
                                     AddRelationship (memToEntity (memoryNode_of now memory) entity)]) es)
                      @ map (\<lambda>rel. AddRelationship (relationship_of rel)) rs))
   \<and> (\<forall>entity \<in> set (items (entities (extraction_of m (res_text memory)))).
         AddNode (entityNode_of entity)
           \<in> set (memory_ops now memory (extraction_of m (res_text memory)))
       \<and> AddRelationship
           \<lparr> rel_id = ''rel-Memory_'' @ res_id memory @ ''-mentions-'' @ entity_id entity,
             sourceNodeId = ''Memory_'' @ res_id memory,
             targetNodeId = entity_id entity,
             rel_type = ''MENTIONS'',
             rel_properties = [] \<rparr>
           \<in> set (memory_ops now memory (extraction_of m (res_text memory))))
   \<and> (\<forall>n. AddNode n \<in> set (memory_ops now memory (extraction_of m (res_text memory)))
         \<longrightarrow> n = memoryNode_of now memory
             \<or> n \<in> entityNode_of ` set (items (entities (extraction_of m (res_text memory)))))
   \<and> (\<forall>r. AddRelationship r \<in> set (memory_ops now memory (extraction_of m (res_text memory)))
         \<longrightarrow> r \<in> memToEntity (memoryNode_of now memory)
                   ` set (items (entities (extraction_of m (res_text memory))))
             \<or> r \<in> relationship_of ` set (items (relationships (extraction_of m (res_text memory)))))"
proof -
  let ?ex = "extraction_of m (res_text memory)"
  have node: "memoryNode_of now (memory\<lparr>res_tags := tags\<rparr>) = memoryNode_of now memory"
    by (simp add: memoryNode_of_def)
  have same_text: "res_text (memory\<lparr>res_tags := tags\<rparr>) = res_text memory"
    by simp
  have tags: "process_memory kg m now (memory\<lparr>res_tags := tags\<rparr>) g = process_memory kg m now memory g"
    unfolding process_memory_def node same_text by (rule refl)
  have log: "process_memory log_kg m now memory [] = (memory_outcome ?ex, memory_ops now memory ?ex)"
    by (simp add: process_memory_log)
  have whole: "\<exists>es rs. ?ex = \<lparr> entities = Items es, relationships = Items rs \<rparr>
              \<and> snd (process_memory log_kg m now memory [])
                  = AddNode (memoryNode_of now memory)
                      # concat (map (\<lambda>entity. [AddNode (entityNode_of entity),
                                     AddRelationship (memToEntity (memoryNode_of now memory) entity)]) es)
                      @ map (\<lambda>rel. AddRelationship (relationship_of rel)) rs"
    if ended: "fst (process_memory log_kg m now memory []) = None"
  proof -
    from ended have none: "memory_outcome ?ex = None"
      unfolding log by simp
    then obtain es where es: "entities ?ex = Items es"
      by (cases "entities ?ex") (simp_all add: memory_outcome_def)
    with none obtain rs where rs: "relationships ?ex = Items rs"
      by (cases "relationships ?ex") (simp_all add: memory_outcome_def)
    have "?ex = \<lparr> entities = Items es, relationships = Items rs \<rparr>"
      using es rs by (cases ?ex) simp
    moreover have "memory_ops now memory ?ex
        = AddNode (memoryNode_of now memory)
            # concat (map (\<lambda>entity. [AddNode (entityNode_of entity),
                           AddRelationship (memToEntity (memoryNode_of now memory) entity)]) es)
            @ map (\<lambda>rel. AddRelationship (relationship_of rel)) rs"
      unfolding memory_ops_def es rs entity_ops_def [abs_def] by (simp add: items_def)
    ultimately show ?thesis
      unfolding log by simp
  qed
  have mention: "memToEntity (memoryNode_of now memory) entity
      = \<lparr> rel_id = ''rel-Memory_'' @ res_id memory @ ''-mentions-'' @ entity_id entity,
          sourceNodeId = ''Memory_'' @ res_id memory,
          targetNodeId = entity_id entity,
          rel_type = ''MENTIONS'',
          rel_properties = [] \<rparr>" for entity
    by (simp add: memToEntity_def memoryNode_of_def)
  have every: "AddNode (entityNode_of entity) \<in> set (memory_ops now memory ?ex)
      \<and> AddRelationship (memToEntity (memoryNode_of now memory) entity)
          \<in> set (memory_ops now memory ?ex)"
    if "entity \<in> set (items (entities ?ex))" for entity
    using that by (cases "entities ?ex") (auto simp: memory_ops_def entity_ops_def items_def)
  have nodes: "n = memoryNode_of now memory \<or> n \<in> entityNode_of ` set (items (entities ?ex))"
    if "AddNode n \<in> set (memory_ops now memory ?ex)" for n
    using that by (cases "entities ?ex") (auto simp: memory_ops_def entity_ops_def items_def)
  have rels: "r \<in> memToEntity (memoryNode_of now memory) ` set (items (entities ?ex))
      \<or> r \<in> relationship_of ` set (items (relationships ?ex))"
    if "AddRelationship r \<in> set (memory_ops now memory ?ex)" for r
    using that by (cases "entities ?ex") (auto simp: memory_ops_def entity_ops_def items_def)
  from every have every': "\<forall>entity \<in> set (items (entities ?ex)).
         AddNode (entityNode_of entity) \<in> set (memory_ops now memory ?ex)
       \<and> AddRelationship
           \<lparr> rel_id = ''rel-Memory_'' @ res_id memory @ ''-mentions-'' @ entity_id entity,
             sourceNodeId = ''Memory_'' @ res_id memory,
             targetNodeId = entity_id entity,
             rel_type = ''MENTIONS'',
             rel_properties = [] \<rparr>
           \<in> set (memory_ops now memory ?ex)"
    unfolding mention by blast
  from whole have whole': "fst (process_memory log_kg m now memory []) = None
        \<longrightarrow> (\<exists>es rs. ?ex = \<lparr> entities = Items es, relationships = Items rs \<rparr>
              \<and> snd (process_memory log_kg m now memory [])
                  = AddNode (memoryNode_of now memory)
                      # concat (map (\<lambda>entity. [AddNode (entityNode_of entity),
                                     AddRelationship (memToEntity (memoryNode_of now memory) entity)]) es)
                      @ map (\<lambda>rel. AddRelationship (relationship_of rel)) rs)"
    by (rule impI)
  from nodes have nodes': "\<forall>n. AddNode n \<in> set (memory_ops now memory ?ex)
         \<longrightarrow> n = memoryNode_of now memory \<or> n \<in> entityNode_of ` set (items (entities ?ex))"
    by blast
  from rels have rels': "\<forall>r. AddRelationship r \<in> set (memory_ops now memory ?ex)
         \<longrightarrow> r \<in> memToEntity (memoryNode_of now memory) ` set (items (entities ?ex))
             \<or> r \<in> relationship_of ` set (items (relationships ?ex))"
    by blast
  from tags log whole' every' nodes' rels' show ?thesis
    by (intro conjI)
qed

lemma example_memory_ops:
  "memory_ops 1000 (example_memories ! 0) example_extraction
     = [ AddNode \<lparr> node_id = ''Memory_m1'', node_type = ''Memory'',
                   node_properties = [ (''memoryId'', PString ''m1''),
                                       (''content'', PString ''Ada proves theorems''),
                                       (''timestamp'', PNumber 5) ] \<rparr>,
         AddNode \<lparr> node_id = ''ada'', node_type = ''Person'', node_properties = [] \<rparr>,
         AddRelationship \<lparr> rel_id = ''rel-Memory_m1-mentions-ada'', sourceNodeId = ''Memory_m1'',
                           targetNodeId = ''ada'', rel_type = ''MENTIONS'', rel_properties = [] \<rparr> ]"
  by (simp add: memory_ops_def example_memories_def example_extraction_def memoryNode_of_def
      entity_ops_def entityNode_of_def memToEntity_def or_nat_def items_def)

text \<open>C7 on the first example memory: its entity \<^verbatim>\<open>ada\<close> is mentioned.\<close>

theorem sync_upserts_mentions_witness:
  "AddRelationship \<lparr> rel_id = ''rel-Memory_m1-mentions-ada'', sourceNodeId = ''Memory_m1'',
                     targetNodeId = ''ada'', rel_type = ''MENTIONS'', rel_properties = [] \<rparr>
     \<in> set (snd (process_memory log_kg example_llm 1000 (example_memories ! 0) []))"
proof -
  have ada: "\<lparr> entity_id = ''ada'', entity_label = ''Person'', entity_properties = [] \<rparr>
               \<in> set (items (entities (extraction_of example_llm (res_text (example_memories ! 0)))))"
    by (simp add: example_llm_extraction example_extraction_def items_def)
  have m1: "res_id (example_memories ! 0) = ''m1''"
    by (simp add: example_memories_def)
  note all = sync_upserts_mentions [where kg = log_kg and tags = "[]" and g = "[]"
      and m = example_llm and now = 1000 and memory = "example_memories ! 0"]
  note log = all [THEN conjunct2, THEN conjunct1]
  note mention = all [THEN conjunct2, THEN conjunct2, THEN conjunct2, THEN conjunct1,
      THEN bspec, OF ada, THEN conjunct2]
  from mention show ?thesis
    unfolding log by (simp add: m1)
qed

text \<open>
  C7 as the specification states it fails: the first example memory has the tag \<^verbatim>\<open>tag1\<close>, and
  the calls the engine issues for it are its node, the entity node and the \<^verbatim>\<open>MENTIONS\<close>
  relationship: no \<^verbatim>\<open>Tag\<close> node and no \<^verbatim>\<open>HAS_TAG\<close> relationship.
\<close>

theorem sync_upserts_tags_counterexample:
  "res_tags (example_memories ! 0) = [''tag1'']
   \<and> process_memory log_kg example_llm 1000 (example_memories ! 0) []
       = (None,
          [ AddNode \<lparr> node_id = ''Memory_m1'', node_type = ''Memory'',
                      node_properties = [ (''memoryId'', PString ''m1''),
                                          (''content'', PString ''Ada proves theorems''),
                                          (''timestamp'', PNumber 5) ] \<rparr>,
            AddNode \<lparr> node_id = ''ada'', node_type = ''Person'', node_properties = [] \<rparr>,
            AddRelationship \<lparr> rel_id = ''rel-Memory_m1-mentions-ada'', sourceNodeId = ''Memory_m1'',
                              targetNodeId = ''ada'', rel_type = ''MENTIONS'', rel_properties = [] \<rparr> ])
   \<and> \<not> list_ex (\<lambda>op. case op of AddNode n \<Rightarrow> node_type n = ''Tag''
                                 | AddRelationship r \<Rightarrow> rel_type r = ''HAS_TAG'')
         (snd (process_memory log_kg example_llm 1000 (example_memories ! 0) []))"
proof -
  have tags: "res_tags (example_memories ! 0) = [''tag1'']"
    by (simp add: example_memories_def)
  have ops: "process_memory log_kg example_llm 1000 (example_memories ! 0) []
       = (None, memory_ops 1000 (example_memories ! 0) example_extraction)"
    by (simp add: process_memory_log example_llm_extraction example_outcome)
  show ?thesis
    unfolding ops example_memory_ops using tags by simp
qed

lemma memory_ops_projection:
  "op_key ` set (memory_ops now memory extraction) = projection_keys memory extraction"
proof (cases "entities extraction")
  case NotIterable
  then show ?thesis
    by (simp add: memory_ops_def projection_keys_def items_def memoryNode_of_def)
next
  case (Items es)
  have ents: "op_key ` set (concat (map (entity_ops (memoryNode_of now memory)) es))
      = (\<lambda>entity. NodeKey (entity_id entity)) ` set es
        \<union> (\<lambda>entity. RelKey (''rel-Memory_'' @ res_id memory @ ''-mentions-'' @ entity_id entity))
            ` set es"
    by (induction es)
      (auto simp: entity_ops_def entityNode_of_def memToEntity_def memoryNode_of_def)
  have rels: "op_key ` set (map (\<lambda>rel. AddRelationship (relationship_of rel)) rs)
      = (\<lambda>rel. RelKey (''rel-'' @ sourceEntityId rel @ ''-'' @ er_type rel @ ''-''
                         @ targetEntityId rel)) ` set rs" for rs
    by (induction rs) (auto simp: relationship_of_def)
  have "op_key ` set (memory_ops now memory extraction)
      = insert (NodeKey (''Memory_'' @ res_id memory))
          (op_key ` set (concat (map (entity_ops (memoryNode_of now memory)) es))
           \<union> op_key ` set (map (\<lambda>rel. AddRelationship (relationship_of rel))
                (items (relationships extraction))))"
    unfolding memory_ops_def Items
    by (simp add: memoryNode_of_def image_Un)
  also have "\<dots> = projection_keys memory extraction"
    unfolding ents rels projection_keys_def Items
    by (simp add: items_def Un_assoc)
  finally show ?thesis .
qed

lemma sync_ops_projection:
  "op_key ` set (sync_ops m clock i memories)
     = (\<Union>memory \<in> set memories. projection_keys memory (extraction_of m (res_text memory)))"
  by (induction memories arbitrary: i) (simp_all add: image_Un memory_ops_projection)

lemma memory_ops_keys:
  "map op_key (memory_ops now memory extraction) = map op_key (memory_ops now' memory extraction)"
proof -
  have ids: "node_id (memoryNode_of now memory) = node_id (memoryNode_of now' memory)"
    by (simp add: memoryNode_of_def)
  have "map op_key (concat (map (entity_ops (memoryNode_of now memory)) es))
          = map op_key (concat (map (entity_ops (memoryNode_of now' memory)) es))" for es
    using ids by (induction es) (simp_all add: entity_ops_def memToEntity_def)
  with ids show ?thesis
    by (cases "entities extraction") (simp_all add: memory_ops_def)
qed

lemma sync_ops_keys:
  assumes "\<forall>memory \<in> set memories. extraction_of m' (res_text memory) = extraction_of m (res_text memory)"
  shows "map op_key (sync_ops m' clock' i' memories) = map op_key (sync_ops m clock i memories)"
  using assms
proof (induction memories arbitrary: i i')
  case Nil
  then show ?case by simp
next
  case (Cons memory rest)
  from Cons.prems have "extraction_of m' (res_text memory) = extraction_of m (res_text memory)"
    by simp
  moreover from Cons.prems have
    "map op_key (sync_ops m' clock' (Suc i') rest) = map op_key (sync_ops m clock (Suc i) rest)"
    by (intro Cons.IH) simp
  ultimately show ?case
    using memory_ops_keys [of "clock' i'" memory "extraction_of m (res_text memory)" "clock i"]
    by simp
qed

text \<open>
  C6, with the hypothesis it needs. Let two sync runs select the same memories, let the
  extractor return for each of them the same entities and relationships in both runs,
  and let the graph service upsert with merge semantics. Then both runs end; the keys
  the first run issues are, for each memory, \<^verbatim>\<open>Memory_<id>\<close>, the id of each extracted
  entity, \<^verbatim>\<open>rel-Memory_<id>-mentions-<entity id>\<close> for each extracted entity and
  \<^verbatim>\<open>rel-<source>-<type>-<target>\<close> for each extracted relationship, and the graph
  gains exactly these keys; the second run issues the same keys, call for call, though
  its clock may differ, and the graph holds the same keys after it as before it: nothing
  is duplicated.
\<close>

theorem sync_twice_no_duplicates:
  assumes first: "select_memories svc1 options1 = Inr memories"
    and second: "select_memories svc2 options2 = Inr memories"
    and extraction: "\<forall>memory \<in> set memories.
        extraction_of (llmService svc2) (res_text memory)
          = extraction_of (llmService svc1) (res_text memory)"
    and merge: "kgService svc1 = merge_kg" "kgService svc2 = merge_kg"
  shows "\<exists>r1 g1 r2 g2.
           syncKnowledgeGraph svc1 options1 g0 = (Inr r1, g1)
         \<and> syncKnowledgeGraph svc2 options2 g1 = (Inr r2, g2)
         \<and> graph_keys g1 = graph_keys g0
             \<union> (\<Union>memory \<in> set memories.
                  projection_keys memory (extraction_of (llmService svc1) (res_text memory)))
         \<and> graph_keys g2 = graph_keys g1
         \<and> op_key ` set (snd (syncKnowledgeGraph (with_kg log_kg svc1) options1 []))
             = (\<Union>memory \<in> set memories.
                  projection_keys memory (extraction_of (llmService svc1) (res_text memory)))
         \<and> map op_key (snd (syncKnowledgeGraph (with_kg log_kg svc2) options2 []))
             = map op_key (snd (syncKnowledgeGraph (with_kg log_kg svc1) options1 []))"
proof -
  let ?ops1 = "sync_ops (llmService svc1) (date_now svc1) 0 memories"
  let ?ops2 = "sync_ops (llmService svc2) (date_now svc2) 0 memories"
  let ?keys = "\<Union>memory \<in> set memories.
                  projection_keys memory (extraction_of (llmService svc1) (res_text memory))"
  from syncKnowledgeGraph_merge [OF first merge(1), of g0]
  obtain r1 g1 where run1: "syncKnowledgeGraph svc1 options1 g0 = (Inr r1, g1)"
    and keys1: "graph_keys g1 = graph_keys g0 \<union> op_key ` set ?ops1"
    by blast
  from syncKnowledgeGraph_merge [OF second merge(2), of g1]
  obtain r2 g2 where run2: "syncKnowledgeGraph svc2 options2 g1 = (Inr r2, g2)"
    and keys2: "graph_keys g2 = graph_keys g1 \<union> op_key ` set ?ops2"
    by blast
  have same: "map op_key ?ops2 = map op_key ?ops1"
    by (rule sync_ops_keys [OF extraction])
  then have "set (map op_key ?ops2) = set (map op_key ?ops1)"
    by (simp only:)
  then have "op_key ` set ?ops2 = op_key ` set ?ops1"
    by simp
  with keys1 keys2 have stable: "graph_keys g2 = graph_keys g1"
    by blast
  have proj: "op_key ` set ?ops1 = ?keys"
    by (rule sync_ops_projection)
  have gained: "graph_keys g1 = graph_keys g0 \<union> ?keys"
    unfolding keys1 proj by (rule refl)
  have log1: "snd (syncKnowledgeGraph (with_kg log_kg svc1) options1 []) = ?ops1"
    by (simp add: syncKnowledgeGraph_log [OF first])
  have log2: "snd (syncKnowledgeGraph (with_kg log_kg svc2) options2 []) = ?ops2"
    by (simp add: syncKnowledgeGraph_log [OF second])
  have issued1: "op_key ` set (snd (syncKnowledgeGraph (with_kg log_kg svc1) options1 [])) = ?keys"
    unfolding log1 by (rule proj)
  have issued2: "map op_key (snd (syncKnowledgeGraph (with_kg log_kg svc2) options2 []))
             = map op_key (snd (syncKnowledgeGraph (with_kg log_kg svc1) options1 []))"
    unfolding log1 log2 by (rule same)
  from run1 run2 gained stable issued1 issued2 show ?thesis
    by blast
qed

lemma other_llm_extraction:
  "extraction_of other_llm content
     = \<lparr> entities = Items [\<lparr> entity_id = ''bob'', entity_label = ''Person'', entity_properties = [] \<rparr>],
         relationships = Items [] \<rparr>"
  by (simp add: extraction_of_def extractKnowledge_def extract_try_def other_llm_def
      example_llm_def or_array_def)

lemma merge_run_keys:
  assumes "select_memories svc options = Inr memories" and "kgService svc = merge_kg"
  shows "graph_keys (snd (syncKnowledgeGraph svc options g))
           = graph_keys g
             \<union> (\<Union>memory \<in> set memories.
                  projection_keys memory (extraction_of (llmService svc) (res_text memory)))"
  using syncKnowledgeGraph_merge [OF assms, of g]
  by (auto simp: sync_ops_projection)

lemma example_keys:
  "graph_keys (snd (syncKnowledgeGraph (example_sync merge_kg) \<lparr> forceFullResync = None \<rparr>
         empty_graph))
     = {NodeKey ''Memory_m1'', NodeKey ''ada'', RelKey ''rel-Memory_m1-mentions-ada'',
        NodeKey ''Memory_m2'', RelKey ''rel-Memory_m2-mentions-ada''}"
proof -
  have "graph_keys (snd (syncKnowledgeGraph (example_sync merge_kg) \<lparr> forceFullResync = None \<rparr>
         empty_graph))
     = graph_keys empty_graph
         \<union> (\<Union>memory \<in> set example_memories.
              projection_keys memory
                (extraction_of (llmService (example_sync merge_kg)) (res_text memory)))"
    by (rule merge_run_keys [OF example_select]) (simp add: example_sync_fields)
  also have "graph_keys empty_graph = {}"
    by (simp add: graph_keys_def empty_graph_def)
  also have "(\<Union>memory \<in> set example_memories.
              projection_keys memory
                (extraction_of (llmService (example_sync merge_kg)) (res_text memory)))
      = {NodeKey ''Memory_m1'', NodeKey ''ada'', RelKey ''rel-Memory_m1-mentions-ada'',
         NodeKey ''Memory_m2'', RelKey ''rel-Memory_m2-mentions-ada''}"
    by (simp add: example_sync_fields example_llm_extraction example_memories_def
        projection_keys_def example_extraction_def items_def insert_commute)
  finally show ?thesis by simp
qed

text \<open>
  C6 on the example service: a second run, with a later clock, on the graph the first
  run left; after either run the graph holds the two memory nodes, the entity node and
  the two \<^verbatim>\<open>MENTIONS\<close> relationships.
\<close>

theorem sync_twice_no_duplicates_witness:
  "graph_keys (snd (syncKnowledgeGraph ((example_sync merge_kg)\<lparr>date_now := (\<lambda>i. 2000 + i)\<rparr>)
       \<lparr> forceFullResync = None \<rparr>
       (snd (syncKnowledgeGraph (example_sync merge_kg) \<lparr> forceFullResync = None \<rparr> empty_graph))))
     = graph_keys (snd (syncKnowledgeGraph (example_sync merge_kg) \<lparr> forceFullResync = None \<rparr>
         empty_graph))
   \<and> graph_keys (snd (syncKnowledgeGraph (example_sync merge_kg) \<lparr> forceFullResync = None \<rparr>
         empty_graph))
     = {NodeKey ''Memory_m1'', NodeKey ''ada'', RelKey ''rel-Memory_m1-mentions-ada'',
        NodeKey ''Memory_m2'', RelKey ''rel-Memory_m2-mentions-ada''}"
proof -
  let ?svc1 = "example_sync merge_kg"
  let ?svc2 = "(example_sync merge_kg)\<lparr>date_now := (\<lambda>i. 2000 + i)\<rparr>"
  let ?opts = "\<lparr> forceFullResync = None \<rparr>"
  have sel1: "select_memories ?svc1 ?opts = Inr example_memories"
    by (rule example_select)
  have sel2: "select_memories ?svc2 ?opts = Inr example_memories"
    by (simp add: select_memories_def example_sync_def example_memories_def)
  have ext: "\<forall>memory \<in> set example_memories.
        extraction_of (llmService ?svc2) (res_text memory)
          = extraction_of (llmService ?svc1) (res_text memory)"
    by (simp add: example_sync_def)
  have kg: "kgService ?svc1 = merge_kg" "kgService ?svc2 = merge_kg"
    by (simp_all add: example_sync_def)
  note twice = sync_twice_no_duplicates [OF sel1 sel2 ext kg, of empty_graph]
  from twice obtain r1 g1 r2 g2 where runs:
    "syncKnowledgeGraph ?svc1 ?opts empty_graph = (Inr r1, g1)
     \<and> syncKnowledgeGraph ?svc2 ?opts g1 = (Inr r2, g2)
     \<and> graph_keys g1 = graph_keys empty_graph
          \<union> (\<Union>memory \<in> set example_memories.
               projection_keys memory (extraction_of (llmService ?svc1) (res_text memory)))
     \<and> graph_keys g2 = graph_keys g1
     \<and> op_key ` set (snd (syncKnowledgeGraph (with_kg log_kg ?svc1) ?opts []))
          = (\<Union>memory \<in> set example_memories.
               projection_keys memory (extraction_of (llmService ?svc1) (res_text memory)))
     \<and> map op_key (snd (syncKnowledgeGraph (with_kg log_kg ?svc2) ?opts []))
          = map op_key (snd (syncKnowledgeGraph (with_kg log_kg ?svc1) ?opts []))"
    by (elim exE)
  note run1 = runs [THEN conjunct1]
  note run2 = runs [THEN conjunct2, THEN conjunct1]
  note same = runs [THEN conjunct2, THEN conjunct2, THEN conjunct2, THEN conjunct1]
  have g1: "snd (syncKnowledgeGraph ?svc1 ?opts empty_graph) = g1"
    unfolding run1 by (rule snd_conv)
  have g2: "snd (syncKnowledgeGraph ?svc2 ?opts g1) = g2"
    unfolding run2 by (rule snd_conv)
  have stable: "graph_keys (snd (syncKnowledgeGraph ?svc2 ?opts (snd (syncKnowledgeGraph ?svc1 ?opts empty_graph))))
     = graph_keys (snd (syncKnowledgeGraph ?svc1 ?opts empty_graph))"
    unfolding g1 g2 by (rule same)
  from stable example_keys show ?thesis
    by (rule conjI)
qed

text \<open>
  C6 as the specification states it fails. The memories are unchanged, but in the second run the
  model names another entity for them: the second run issues the keys \<^verbatim>\<open>bob\<close>,
  \<^verbatim>\<open>rel-Memory_m1-mentions-bob\<close> and \<^verbatim>\<open>rel-Memory_m2-mentions-bob\<close>, which the
  first did not, and the merge creates them: the graph holds more after the second run
  than after the first.
\<close>

theorem sync_twice_new_keys_counterexample:
  "select_memories ((example_sync merge_kg)\<lparr>llmService := other_llm\<rparr>) \<lparr> forceFullResync = None \<rparr>
     = select_memories (example_sync merge_kg) \<lparr> forceFullResync = None \<rparr>
   \<and> graph_keys (snd (syncKnowledgeGraph (example_sync merge_kg) \<lparr> forceFullResync = None \<rparr>
         empty_graph))
     = {NodeKey ''Memory_m1'', NodeKey ''ada'', RelKey ''rel-Memory_m1-mentions-ada'',
        NodeKey ''Memory_m2'', RelKey ''rel-Memory_m2-mentions-ada''}
   \<and> graph_keys (snd (syncKnowledgeGraph ((example_sync merge_kg)\<lparr>llmService := other_llm\<rparr>)
       \<lparr> forceFullResync = None \<rparr>
       (snd (syncKnowledgeGraph (example_sync merge_kg) \<lparr> forceFullResync = None \<rparr> empty_graph))))
     = {NodeKey ''Memory_m1'', NodeKey ''ada'', RelKey ''rel-Memory_m1-mentions-ada'',
        NodeKey ''Memory_m2'', RelKey ''rel-Memory_m2-mentions-ada'',
        NodeKey ''bob'', RelKey ''rel-Memory_m1-mentions-bob'', RelKey ''rel-Memory_m2-mentions-bob''}
   \<and> NodeKey ''bob''
       \<notin> graph_keys (snd (syncKnowledgeGraph (example_sync merge_kg) \<lparr> forceFullResync = None \<rparr>
             empty_graph))"
proof -
  let ?svc2 = "(example_sync merge_kg)\<lparr>llmService := other_llm\<rparr>"
  let ?opts = "\<lparr> forceFullResync = None \<rparr>"
  let ?g1 = "snd (syncKnowledgeGraph (example_sync merge_kg) ?opts empty_graph)"
  have sel2: "select_memories ?svc2 ?opts = Inr example_memories"
    by (simp add: select_memories_def example_sync_def example_memories_def)
  have "graph_keys (snd (syncKnowledgeGraph ?svc2 ?opts ?g1))
     = graph_keys ?g1
         \<union> (\<Union>memory \<in> set example_memories.
              projection_keys memory (extraction_of (llmService ?svc2) (res_text memory)))"
    by (rule merge_run_keys [OF sel2]) (simp add: example_sync_def)
  also have "(\<Union>memory \<in> set example_memories.
              projection_keys memory (extraction_of (llmService ?svc2) (res_text memory)))
      = {NodeKey ''Memory_m1'', NodeKey ''bob'', RelKey ''rel-Memory_m1-mentions-bob'',
         NodeKey ''Memory_m2'', RelKey ''rel-Memory_m2-mentions-bob''}"
    by (simp add: example_sync_def other_llm_extraction example_memories_def
        projection_keys_def items_def insert_commute)
  finally have second: "graph_keys (snd (syncKnowledgeGraph ?svc2 ?opts ?g1))
     = {NodeKey ''Memory_m1'', NodeKey ''ada'', RelKey ''rel-Memory_m1-mentions-ada'',
        NodeKey ''Memory_m2'', RelKey ''rel-Memory_m2-mentions-ada'',
        NodeKey ''bob'', RelKey ''rel-Memory_m1-mentions-bob'', RelKey ''rel-Memory_m2-mentions-bob''}"
    unfolding example_keys by auto
  have absent: "NodeKey ''bob'' \<notin> graph_keys ?g1"
    unfolding example_keys by simp
  from sel2 example_select [of merge_kg ?opts] example_keys second absent show ?thesis
    by simp
qed

end
